theory Spec2Isabelle
  imports Main "HOL-Library.Sublist"
begin

section \<open>JavaScript strings\<close>

text \<open>
  A JavaScript string is modelled as a \<^typ>\<open>string\<close>: the list of its code units, each
  below 256 (the strings of the loader's own vocabulary, its tags, prefixes and
  extensions, are ASCII).
\<close>

definition js_whitespace :: "char \<Rightarrow> bool" where
  \<comment> \<open>the class \<^verbatim>\<open>\s\<close> of a regular expression, among the code units below 256:
      TAB, LF, VT, FF, CR, SPACE and NBSP\<close>
  "js_whitespace c \<longleftrightarrow>
     c \<in> set [CHR 0x09, CHR 0x0A, CHR 0x0B, CHR 0x0C, CHR 0x0D, CHR 0x20, CHR 0xA0]"

text \<open>
  \<^verbatim>\<open>s.split(/\s+/)\<close>: the pieces of \<open>s\<close> between its maximal runs of whitespace. A run at
  the start or at the end of \<open>s\<close> leaves an empty piece there, and a string with no
  whitespace (the empty string too) is its own single piece. The first argument is the
  piece being read.
\<close>

fun split_ws_from :: "string \<Rightarrow> string \<Rightarrow> string list" where
  "split_ws_from cur [] = [cur]"
| "split_ws_from cur [c] = (if js_whitespace c then [cur, []] else [cur @ [c]])"
| "split_ws_from cur (c # d # cs) =
     (if js_whitespace c
      then (if js_whitespace d then split_ws_from cur (d # cs)
            else cur # split_ws_from [] (d # cs))
      else split_ws_from (cur @ [c]) (d # cs))"

definition split_ws :: "string \<Rightarrow> string list" where
  "split_ws s = split_ws_from [] s"

text \<open>
  \<^verbatim>\<open>s.split('.')\<close> and \<^verbatim>\<open>s.split(/\n/)\<close>: the pieces of \<open>s\<close> between the occurrences of one
  separating character.
\<close>

fun split_on_from :: "char \<Rightarrow> string \<Rightarrow> string \<Rightarrow> string list" where
  "split_on_from sep cur [] = [cur]"
| "split_on_from sep cur (c # cs) =
     (if c = sep then cur # split_on_from sep [] cs
      else split_on_from sep (cur @ [c]) cs)"

definition split_on :: "char \<Rightarrow> string \<Rightarrow> string list" where
  "split_on sep s = split_on_from sep [] s"

definition index_js :: "'a list \<Rightarrow> nat \<Rightarrow> 'a option" where
  \<comment> \<open>\<^verbatim>\<open>xs[i]\<close>, which is \<^verbatim>\<open>undefined\<close> (here \<open>None\<close>) out of range\<close>
  "index_js xs i = (if i < length xs then Some (xs ! i) else None)"

definition concat_js :: "string \<Rightarrow> string option \<Rightarrow> string" where
  \<comment> \<open>\<^verbatim>\<open>s + x\<close> for a string \<open>s\<close> and an \<open>x\<close> that is a string or \<^verbatim>\<open>undefined\<close>\<close>
  "concat_js s x = (case x of None \<Rightarrow> s @ ''undefined'' | Some t \<Rightarrow> s @ t)"

definition falsy :: "string option \<Rightarrow> bool" where
  \<comment> \<open>\<^verbatim>\<open>!x\<close> for an \<open>x\<close> that is a string, \<^verbatim>\<open>null\<close> or \<^verbatim>\<open>undefined\<close>\<close>
  "falsy x \<longleftrightarrow> x = None \<or> x = Some []"

definition is_digit :: "char \<Rightarrow> bool" where
  "is_digit c \<longleftrightarrow> c \<in> set ''0123456789''"

definition strip_line_number :: "string \<Rightarrow> string" where
  \<comment> \<open>\<^verbatim>\<open>line.replace(/:\d+$/, '')\<close>: a colon and one or more digits at the very end go\<close>
  "strip_line_number line =
     (let digits = takeWhile is_digit (rev line) in
      case dropWhile is_digit (rev line) of
        [] \<Rightarrow> line
      | c # front \<Rightarrow> if c = CHR '':'' \<and> digits \<noteq> [] then rev front else line)"

text \<open>
  \<^verbatim>\<open>s.lastIndexOf(t)\<close>: the greatest index at which \<open>t\<close> occurs in \<open>s\<close>, and \<open>-1\<close> when it
  occurs nowhere. The candidates are tried from the right.
\<close>

definition lastIndexOf :: "string \<Rightarrow> string \<Rightarrow> int" where
  "lastIndexOf s t =
     (if length s < length t then - 1
      else (case filter (\<lambda>k. take (length t) (drop k s) = t)
                        (rev [0 ..< Suc (length s - length t)]) of
              [] \<Rightarrow> - 1
            | k # _ \<Rightarrow> int k))"

section \<open>The resource descriptor\<close>

text \<open>
  The descriptor built for one source file. \<open>None\<close> is an absent value (\<^verbatim>\<open>null\<close> or
  \<^verbatim>\<open>undefined\<close>). The field \<^verbatim>\<open>id\<close> is written \<open>id'\<close>. The option object only ever
  holds the value \<^verbatim>\<open>true\<close> under a key.
\<close>

record JS =
  path :: string
  id' :: "string option"
  isModule :: bool
  isLegacy :: bool
  isRunWhenReady :: bool
  isJavelin :: bool
  isPolyfill :: bool
  isPermanent :: bool
  isNopackage :: bool
  isJSXEnabled :: bool
  jsxDOMImplementor :: "string option"
  requiredModules :: "string list"
  requiredLegacyComponents :: "string list"
  requiredCSS :: "string list"
  options :: "string \<rightharpoonup> bool"
  definedJavelinSymbols :: "string list"
  requiredJavelinSymbols :: "string list"
  networkSize :: "nat option"

definition JS_new :: "string \<Rightarrow> JS" where
  \<comment> \<open>Modelled from the spec: the constructor \<^verbatim>\<open>new JS(path)\<close> of \<^verbatim>\<open>../resource/JS\<close>, which
      is not among the sources. The spec's data model (section 3) gives the fields, and a
      descriptor is created fresh per ingestion call: the path as given, no id, no flag
      set, no dependency, no option, no symbol and no size.\<close>
  "JS_new p =
     \<lparr> path = p, id' = None, isModule = False, isLegacy = False, isRunWhenReady = False,
       isJavelin = False, isPolyfill = False, isPermanent = False, isNopackage = False,
       isJSXEnabled = False, jsxDOMImplementor = None, requiredModules = [],
       requiredLegacyComponents = [], requiredCSS = [], options = Map.empty,
       definedJavelinSymbols = [], requiredJavelinSymbols = [], networkSize = None \<rparr>"

section \<open>Collaborators and observable events\<close>

datatype error = TypeError | ZlibError

text \<open>
  What the loader calls and does not define: the docblock parser, the extractor of
  \<^verbatim>\<open>require\<close> calls, the compression routine (it reports an error or hands over the
  compressed bytes) and the symbol classifier (run as a child process at a path and fed
  the source, it leaves the text it printed by the time it exits).
\<close>

record collaborators =
  docblock_extract :: "string \<Rightarrow> string"
  docblock_parse :: "string \<Rightarrow> (string \<times> string) list"
  extractRequireCalls :: "string \<Rightarrow> string list"
  zlib_deflate :: "string \<Rightarrow> error + string"
  javelinsymbols :: "string \<Rightarrow> string \<Rightarrow> string"

record ProjectConfiguration =
  resolveID :: "string \<Rightarrow> string option"

text \<open>
  The loader is written in continuation-passing style, and what a call does is the list
  of events it causes, in order. \<open>NextTurn\<close> ends the current synchronous turn of the
  event loop: the events after it happen in a later turn. \<open>Completion\<close> is one invocation
  of the completion callback the caller handed in, with its two arguments; \<open>Uncaught\<close> is
  an exception nothing catches, after which nothing more happens.
\<close>

datatype event =
    ExtractRequireCalls string
  | ZlibDeflate string
  | ChildProcessExec string string
  | NextTurn
  | Completion "error option" JS
  | Uncaught error

type_synonym callback = "error option \<Rightarrow> JS \<Rightarrow> event list"

definition completion :: callback where
  \<comment> \<open>the caller's callback, seen from outside: its invocation is recorded\<close>
  "completion err js = [Completion err js]"

fun is_Completion :: "event \<Rightarrow> bool" where
  "is_Completion (Completion err js) = True"
| "is_Completion e = False"

definition completions :: "event list \<Rightarrow> event list" where
  \<comment> \<open>the invocations of the completion callback, over all turns\<close>
  "completions tr = filter is_Completion tr"

definition same_turn :: "event list \<Rightarrow> event list" where
  \<comment> \<open>the events of the synchronous turn in which the call was made\<close>
  "same_turn tr = takeWhile (\<lambda>e. e \<noteq> NextTurn) tr"

section \<open>The size-estimation stage\<close>

text \<open>
  \<^verbatim>\<open>JSLoader.prototype.extractNetworkSize = function(js, sourceCode, callback) {
    zlib.deflate(sourceCode, function(err, buffer) {
      js.networkSize = buffer.length;
      callback(null, js);
    });
  };\<close>
  The routine answers in a later turn. When it reports an error it hands over no
  buffer, and reading \<^verbatim>\<open>buffer.length\<close> of \<^verbatim>\<open>undefined\<close> throws a \<^verbatim>\<open>TypeError\<close>.
\<close>

definition extractNetworkSize :: "collaborators \<Rightarrow> JS \<Rightarrow> string \<Rightarrow> callback \<Rightarrow> event list" where
  "extractNetworkSize env js sourceCode cb =
     ZlibDeflate sourceCode # NextTurn #
     (case zlib_deflate env sourceCode of
        Inl err \<Rightarrow> [Uncaught TypeError]
      | Inr buffer \<Rightarrow> cb None (js\<lparr>networkSize := Some (length buffer)\<rparr>))"

section \<open>The symbol-classification stage\<close>

text \<open>
  The two accumulators \<^verbatim>\<open>defines\<close> and \<^verbatim>\<open>requires\<close> are objects whose keys all hold
  \<^verbatim>\<open>true\<close>; \<^verbatim>\<open>Object.keys\<close> lists the keys in the order of their insertion (every key
  here starts with \<^verbatim>\<open>JX.\<close> or \<^verbatim>\<open>javelin-behavior-\<close>, so none is an array index and none
  is inherited). Such an object is the list of its keys.
\<close>

definition obj_set :: "string list \<Rightarrow> string \<Rightarrow> string list" where
  \<comment> \<open>\<^verbatim>\<open>obj[name] = true\<close>\<close>
  "obj_set obj name = (if name \<in> set obj then obj else obj @ [name])"

definition obj_delete :: "string list \<Rightarrow> string \<Rightarrow> string list" where
  \<comment> \<open>\<^verbatim>\<open>delete obj[name]\<close>\<close>
  "obj_delete obj name = filter (\<lambda>k. k \<noteq> name) obj"

text \<open>
  The body of the loop over the lines of the classifier's output, on the state
  \<open>(defines, requires, js)\<close>.
\<close>

fun javelinSymbolsLine ::
  "string list \<times> string list \<times> JS \<Rightarrow> string \<Rightarrow> string list \<times> string list \<times> JS" where
  "javelinSymbolsLine (defines, requires, js) line0 =
     (let line = strip_line_number line0 in
      (case index_js line 0 of
         None \<Rightarrow> (defines, requires, js)
       | Some c \<Rightarrow>
          (if c = CHR ''+'' then
             (let name = ''JX.'' @ drop 1 line in
              (obj_set defines name,
               obj_set (obj_delete requires name) ''JX.install'',
               js\<lparr>id' := Some name\<rparr>))
           else if c = CHR ''?'' then
             (let name = concat_js ''JX.'' (index_js (split_on CHR ''.'' line) 1) in
              (defines,
               (if name \<in> set defines then requires else obj_set requires name),
               js))
           else if c = CHR ''*'' then
             (let name = ''javelin-behavior-'' @ drop 1 line in
              (obj_set defines name,
               obj_set (obj_delete requires name) ''JX.behavior'',
               js\<lparr>id' := Some name\<rparr>))
           else (defines, requires, js))))"

definition javelinSymbolsCallback :: "JS \<Rightarrow> string \<Rightarrow> callback \<Rightarrow> event list" where
  \<comment> \<open>\<^verbatim>\<open>JSLoader.prototype._javelinSymbolsCallback\<close>\<close>
  "javelinSymbolsCallback js output cb =
     (case foldl javelinSymbolsLine ([], [], js) (split_on CHR 0x0A output) of
        (defines, requires, js') \<Rightarrow>
          cb None (js'\<lparr>definedJavelinSymbols := defines, requiredJavelinSymbols := requires\<rparr>))"

text \<open>
  \<^verbatim>\<open>JSLoader.prototype.extractJavelinSymbols\<close>: a descriptor that is not javelin is handed on
  at once; otherwise the classifier runs as a child process, and its exit is handled in
  a later turn.
\<close>

definition extractJavelinSymbols ::
  "string \<Rightarrow> collaborators \<Rightarrow> JS \<Rightarrow> string \<Rightarrow> callback \<Rightarrow> event list" where
  "extractJavelinSymbols javelinsymbolsPath env js code cb =
     (if \<not> isJavelin js then cb None js
      else ChildProcessExec javelinsymbolsPath code # NextTurn #
           javelinSymbolsCallback js (javelinsymbols env javelinsymbolsPath code) cb)"

section \<open>The loader and its pipeline of optional stages\<close>

record loader_options =
  opt_networkSize :: bool
  opt_extractJavelin :: bool
  opt_javelinsymbolsPath :: "string option"

record JSLoader =
  javelinsymbolsPath :: string
  extractExtra :: "collaborators \<Rightarrow> JS \<Rightarrow> string \<Rightarrow> callback \<Rightarrow> event list"

text \<open>
  The constructor \<^verbatim>\<open>JSLoader(options)\<close> picks \<^verbatim>\<open>extractExtra\<close> once. With both stages, the
  callback given to the classification stage is \<^verbatim>\<open>extractNetworkSize\<close> bound to the
  descriptor; the classification stage changes that same object in place, so the bound
  descriptor is the one it hands on.
\<close>

definition JSLoader_new :: "loader_options option \<Rightarrow> JSLoader" where
  "JSLoader_new options0 =
     (let opts = (case options0 of
                    None \<Rightarrow> \<lparr> opt_networkSize = False, opt_extractJavelin = False,
                              opt_javelinsymbolsPath = None \<rparr>
                  | Some given \<Rightarrow> given);
          extractNetworkSize_on = opt_networkSize opts;
          extractJavelin_on = (opt_extractJavelin opts \<or> \<not> falsy (opt_javelinsymbolsPath opts));
          symbolsPath = (case opt_javelinsymbolsPath opts of
                           None \<Rightarrow> ''/scripts/javelin/javelinsymbols''
                         | Some p \<Rightarrow> if p = [] then ''/scripts/javelin/javelinsymbols'' else p)
      in \<lparr> javelinsymbolsPath = symbolsPath,
           extractExtra =
             (if extractJavelin_on \<and> extractNetworkSize_on then
                (\<lambda>env js sourceCode cb.
                   extractJavelinSymbols symbolsPath env js sourceCode
                     (\<lambda>err js'. extractNetworkSize env js' sourceCode cb))
              else if extractJavelin_on then extractJavelinSymbols symbolsPath
              else if extractNetworkSize_on then extractNetworkSize
              else (\<lambda>env js sourceCode cb. NextTurn # cb None js)) \<rparr>)"

section \<open>Tag interpretation\<close>

text \<open>
  The body of the loop of \<^verbatim>\<open>parseDocblockOptions\<close> over the pairs of the docblock: the
  \<^verbatim>\<open>switch\<close> on the tag's name, in the order of its cases.
\<close>

fun parseDocblockOption :: "JS \<Rightarrow> string \<times> string \<Rightarrow> JS" where
  "parseDocblockOption js (name, val) =
     (if name = ''provides'' then
        js\<lparr>isModule := False, id' := index_js (split_ws val) 0\<rparr>
      else if name = ''providesModule'' then
        js\<lparr>isModule := True, id' := index_js (split_ws val) 0\<rparr>
      else if name = ''providesLegacy'' then
        js\<lparr>isRunWhenReady := True, isLegacy := True, isModule := True,
           id' := Some (concat_js ''legacy:'' (index_js (split_ws val) 0))\<rparr>
      else if name = ''css'' then
        js\<lparr>requiredCSS := requiredCSS js @ split_ws val\<rparr>
      else if name = ''requires'' then
        js\<lparr>requiredLegacyComponents := requiredLegacyComponents js @ split_ws val\<rparr>
      else if name = ''javelin'' then
        js\<lparr>isModule := True, isJavelin := True, isRunWhenReady := True\<rparr>
      else if name = ''polyfill'' then
        js\<lparr>isPolyfill := True\<rparr>
      else if name = ''runWhenReady_DEPRECATED'' then
        js\<lparr>isRunWhenReady := True\<rparr>
      else if name = ''jsx'' then
        js\<lparr>isJSXEnabled := True, jsxDOMImplementor := Some val,
           requiredModules := (if val \<noteq> [] then requiredModules js @ [val]
                               else requiredModules js)\<rparr>
      else if name = ''permanent'' then
        js\<lparr>isPermanent := True\<rparr>
      else if name = ''nopackage'' then
        js\<lparr>isNopackage := True\<rparr>
      else if name = ''option'' \<or> name = ''options'' then
        foldl (\<lambda>js key. js\<lparr>options := (options js)(key \<mapsto> True)\<rparr>) js (split_ws val)
      else js)"

definition parseDocblockOptions :: "collaborators \<Rightarrow> JS \<Rightarrow> string \<Rightarrow> JS" where
  "parseDocblockOptions env js sourceCode =
     (let props = docblock_parse env (docblock_extract env sourceCode)
      in foldl parseDocblockOption js props)"

section \<open>Ingestion of one source file\<close>

definition loadFromSource ::
  "JSLoader \<Rightarrow> collaborators \<Rightarrow> string \<Rightarrow> ProjectConfiguration option \<Rightarrow> string
     \<Rightarrow> callback \<Rightarrow> event list" where
  "loadFromSource loader env path0 configuration sourceCode cb =
     (let js0 = JS_new path0;
          js1 = (if configuration \<noteq> None then js0\<lparr>isModule := True\<rparr> else js0);
          js = parseDocblockOptions env js1 sourceCode
      in if options js ''ignore'' = Some True then cb None js
         else if isModule js then
           ExtractRequireCalls sourceCode #
           (let requires = extractRequireCalls env sourceCode;
                js2 = (case configuration of
                         None \<Rightarrow> js
                       | Some conf \<Rightarrow>
                           if falsy (id' js) then js\<lparr>id' := resolveID conf (path js)\<rparr>
                           else js);
                js3 = js2\<lparr>requiredModules := requiredModules js2 @ requires\<rparr>
            in extractExtra loader env js3 sourceCode cb)
         else extractExtra loader env js sourceCode cb)"

section \<open>File-extension matching\<close>

text \<open>
  \<^verbatim>\<open>JSLoader.prototype.matchPath = function(filePath) {
    return filePath.lastIndexOf('.js') === filePath.length - 3;
  };\<close>
  The right-hand side is a JavaScript number and may be negative, so it is an \<^typ>\<open>int\<close>.
\<close>

definition matchPath :: "string \<Rightarrow> bool" where
  "matchPath filePath \<longleftrightarrow> lastIndexOf filePath ''.js'' = int (length filePath) - 3"

section \<open>Post-process resolution of relative requires\<close>

text \<open>
  The two functions of Node's \<^verbatim>\<open>path\<close> module the pass calls, for POSIX paths.
  \<^verbatim>\<open>path.dirname\<close> drops the last segment of a path, \<^verbatim>\<open>path.join\<close> puts its non-empty
  arguments together with \<^verbatim>\<open>/\<close> and normalises the result: empty and \<^verbatim>\<open>.\<close> segments go,
  a \<^verbatim>\<open>..\<close> takes the segment before it along.
\<close>

definition path_dirname :: "string \<Rightarrow> string" where
  "path_dirname p =
     (if p = [] then ''.''
      else
        (let hasRoot = (hd p = CHR ''/'');
             afterSlashes = dropWhile (\<lambda>c. c = CHR ''/'') (rev (tl p))
         in case dropWhile (\<lambda>c. c \<noteq> CHR ''/'') afterSlashes of
              [] \<Rightarrow> (if hasRoot then ''/'' else ''.'')
            | c # front \<Rightarrow>
                (if hasRoot \<and> front = [] then ''//'' else take (Suc (length front)) p)))"

fun normalizeArray_step :: "string \<Rightarrow> string list \<times> nat \<Rightarrow> string list \<times> nat" where
  "normalizeArray_step part (kept, up) =
     (if part = ''.'' then (kept, up)
      else if part = ''..'' then (kept, Suc up)
      else if 0 < up then (kept, up - 1)
      else (part # kept, up))"

definition normalizeArray :: "string list \<Rightarrow> bool \<Rightarrow> string list" where
  \<comment> \<open>the segments are visited from the last to the first\<close>
  "normalizeArray parts allowAboveRoot =
     (case foldr normalizeArray_step parts ([], 0) of
        (kept, up) \<Rightarrow> (if allowAboveRoot then replicate up ''..'' @ kept else kept))"

fun join_with :: "string \<Rightarrow> string list \<Rightarrow> string" where
  "join_with sep [] = []"
| "join_with sep [x] = x"
| "join_with sep (x # y # ys) = x @ sep @ join_with sep (y # ys)"

definition path_normalize :: "string \<Rightarrow> string" where
  "path_normalize p =
     (let isAbsolute = (index_js p 0 = Some CHR ''/'');
          trailingSlash = (p \<noteq> [] \<and> last p = CHR ''/'');
          joined = join_with ''/''
                     (normalizeArray (filter (\<lambda>seg. seg \<noteq> []) (split_on CHR ''/'' p))
                        (\<not> isAbsolute));
          dotted = (if joined = [] \<and> \<not> isAbsolute then ''.'' else joined);
          slashed = (if dotted \<noteq> [] \<and> trailingSlash then dotted @ ''/'' else dotted)
      in (if isAbsolute then ''/'' else []) @ slashed)"

definition path_join :: "string \<Rightarrow> string \<Rightarrow> string" where
  "path_join a b = path_normalize (join_with ''/'' (filter (\<lambda>seg. seg \<noteq> []) [a, b]))"

text \<open>
  The pass rewrites the arrays \<^verbatim>\<open>requiredModules\<close> of the resources in place, and the
  resources it is given are the very objects the container of the build holds. So a
  resource is a reference, and the objects are a heap: the record of each reference as
  it is when the pass starts. The pass reads the fields \<^verbatim>\<open>path\<close> and \<^verbatim>\<open>id\<close>, which it never
  writes; what it writes is kept apart, as the current content of the array of each
  reference. The container is used through its lookup by path alone:
  \<^verbatim>\<open>map.getResourceByPath(p)\<close> is the resource at \<open>p\<close>, or nothing.
\<close>

type_synonym ref = nat

type_synonym heap = "ref \<Rightarrow> JS"

type_synonym ResourceMap = "string \<Rightarrow> ref option"

text \<open>
  An entry of such an array is a string, or absent (\<open>None\<close>) once the pass has written the
  id of a resource that has none.
\<close>

type_synonym arrays = "ref \<Rightarrow> string option list"

definition arrays_of :: "heap \<Rightarrow> arrays" where
  "arrays_of objects = (\<lambda>a. map Some (requiredModules (objects a)))"

text \<open>
  The body of the loop for an entry \<open>req\<close>: what \<^verbatim>\<open>required[i]\<close> holds after it. The entry
  becomes the \<^verbatim>\<open>id\<close> of the resource found, as that field is.
\<close>

definition postProcess_entry :: "ResourceMap \<Rightarrow> heap \<Rightarrow> JS \<Rightarrow> string \<Rightarrow> string option" where
  "postProcess_entry getResourceByPath objects r req =
     (if index_js req 0 = Some CHR ''.'' then
        (let relative = path_join (path_dirname (path r)) req;
             resource = (case getResourceByPath (relative @ ''.js'') of
                           Some found \<Rightarrow> Some found
                         | None \<Rightarrow> getResourceByPath (relative @ ''/index.js''))
         in case resource of
              None \<Rightarrow> Some req
            | Some found \<Rightarrow> id' (objects found))
      else Some req)"

text \<open>
  \<^verbatim>\<open>for (var i = 0; i < required.length; i++)\<close>, on the array \<open>required\<close> of the resource
  \<open>r\<close>. On an absent entry \<^verbatim>\<open>req.charAt(0)\<close> throws a \<^verbatim>\<open>TypeError\<close>, and the array stays as
  far as it was rewritten.
\<close>

function postProcess_loop ::
  "ResourceMap \<Rightarrow> heap \<Rightarrow> JS \<Rightarrow> string option list \<Rightarrow> nat
     \<Rightarrow> string option list \<times> error option" where
  "postProcess_loop getResourceByPath objects r required i =
     (if i < length required then
        (case required ! i of
           None \<Rightarrow> (required, Some TypeError)
         | Some req \<Rightarrow>
             postProcess_loop getResourceByPath objects r
               (required[i := postProcess_entry getResourceByPath objects r req]) (Suc i))
      else (required, None))"
  by pat_completeness auto
termination
  by (relation "measure (\<lambda>(getResourceByPath, objects, r, required, i). length required - i)")
     auto

text \<open>
  \<^verbatim>\<open>resources.forEach\<close>: each reference of the list in turn, on the arrays as the
  references before it left them. An exception ends the pass.
\<close>

fun postProcess_forEach ::
  "ResourceMap \<Rightarrow> heap \<Rightarrow> ref list \<Rightarrow> arrays \<Rightarrow> arrays \<times> error option" where
  "postProcess_forEach getResourceByPath objects [] current = (current, None)"
| "postProcess_forEach getResourceByPath objects (a # rest) current =
     (case postProcess_loop getResourceByPath objects (objects a) (current a) 0 of
        (required, Some e) \<Rightarrow> (current(a := required), Some e)
      | (required, None) \<Rightarrow>
          postProcess_forEach getResourceByPath objects rest (current(a := required)))"

text \<open>
  \<^verbatim>\<open>JSLoader.prototype.postProcess\<close>: the arrays after the pass and the events of the call.
  The callback takes no argument and is given as the events its invocation causes; it
  is scheduled for a later turn unless the loop has thrown.
\<close>

definition postProcess ::
  "ResourceMap \<Rightarrow> heap \<Rightarrow> ref list \<Rightarrow> event list \<Rightarrow> arrays \<times> event list" where
  "postProcess getResourceByPath objects resources cb =
     (case postProcess_forEach getResourceByPath objects resources (arrays_of objects) of
        (current, Some e) \<Rightarrow> (current, [Uncaught e])
      | (current, None) \<Rightarrow> (current, NextTurn # cb))"


section \<open>Notions used in the statements\<close>

text \<open>
  The tags of the \<^verbatim>\<open>provides\<close> family, the tokens a docblock gives to its \<^verbatim>\<open>option\<close> and
  \<^verbatim>\<open>options\<close> tags, and the values of its \<^verbatim>\<open>jsx\<close> tags, each in the order of the source.
\<close>

definition identity_tag :: "string \<times> string \<Rightarrow> bool" where
  "identity_tag p \<longleftrightarrow> fst p \<in> set [''provides'', ''providesModule'', ''providesLegacy'']"

definition option_tokens :: "(string \<times> string) list \<Rightarrow> string list" where
  "option_tokens props =
     concat (map (\<lambda>p. if fst p = ''option'' \<or> fst p = ''options'' then split_ws (snd p) else [])
               props)"

definition jsx_values :: "(string \<times> string) list \<Rightarrow> string list" where
  "jsx_values props = map snd (filter (\<lambda>p. fst p = ''jsx'') props)"

text \<open>
  Collaborators that answer every call with the same values: the docblock's pairs and
  the list of required modules as given, a compression that succeeds, a classifier that
  prints nothing.
\<close>

definition stub_collaborators :: "(string \<times> string) list \<Rightarrow> string list \<Rightarrow> collaborators" where
  "stub_collaborators props requires =
     \<lparr> docblock_extract = (\<lambda>sourceCode. sourceCode),
       docblock_parse = (\<lambda>docblock. props),
       extractRequireCalls = (\<lambda>sourceCode. requires),
       zlib_deflate = (\<lambda>sourceCode. Inr sourceCode),
       javelinsymbols = (\<lambda>symbolsPath code. []) \<rparr>"

text \<open>
  The descriptor as \<open>loadFromSource\<close> has it when tag interpretation starts: a new one,
  marked as a module when a configuration was supplied.
\<close>

definition initial_descriptor :: "string \<Rightarrow> ProjectConfiguration option \<Rightarrow> JS" where
  "initial_descriptor p conf = (if conf \<noteq> None then (JS_new p)\<lparr>isModule := True\<rparr> else JS_new p)"

text \<open>
  A loader constructed with neither optional stage: no options at all, or options that
  switch on neither the size estimate nor the classifier (a path to the classifier
  switches the classifier on).
\<close>

definition neither_stage :: "loader_options option \<Rightarrow> bool" where
  "neither_stage options0 \<longleftrightarrow>
     (case options0 of
        None \<Rightarrow> True
      | Some opts \<Rightarrow> \<not> opt_networkSize opts \<and> \<not> opt_extractJavelin opts
                     \<and> falsy (opt_javelinsymbolsPath opts))"

text \<open>
  The descriptors the completion callback was handed, in order, and a descriptor
  without the four fields the optional stages write.
\<close>

fun delivered :: "event list \<Rightarrow> JS list" where
  "delivered [] = []"
| "delivered (Completion err js # tr) = js # delivered tr"
| "delivered (e # tr) = delivered tr"

definition docblock_fields :: "JS \<Rightarrow> JS" where
  "docblock_fields js =
     js\<lparr>id' := None, definedJavelinSymbols := [], requiredJavelinSymbols := [],
        networkSize := None\<rparr>"

text \<open>
  Collaborators whose compression routine reports an error for every input.
\<close>

definition failing_deflate :: "collaborators \<Rightarrow> collaborators" where
  "failing_deflate env = env\<lparr>zlib_deflate := (\<lambda>sourceCode. Inl ZlibError)\<rparr>"

text \<open>
  A loader constructed with the size-estimation stage.
\<close>

definition size_stage :: "loader_options option \<Rightarrow> bool" where
  "size_stage options0 \<longleftrightarrow> (case options0 of None \<Rightarrow> False | Some opts \<Rightarrow> opt_networkSize opts)"

text \<open>
  A plain segment of a path: not empty, without a slash, and neither \<^verbatim>\<open>.\<close> nor \<^verbatim>\<open>..\<close>.
\<close>

definition plain :: "string \<Rightarrow> bool" where
  "plain seg \<longleftrightarrow> seg \<noteq> [] \<and> CHR ''/'' \<notin> set seg \<and> seg \<noteq> ''.'' \<and> seg \<noteq> ''..''"

text \<open>
  A build for the examples. At the root there are \<^verbatim>\<open>foo/index.js\<close> (with the id given),
  \<^verbatim>\<open>bar.js\<close> (id \<^verbatim>\<open>Bar\<close>, with the required modules given) and \<^verbatim>\<open>baz.js\<close> (id \<^verbatim>\<open>Baz\<close>); deeper
  there are \<^verbatim>\<open>lib/ui/menu.js\<close>, which requires a sibling, a module of the directory next to
  its own, a file that does not exist and a module that is not relative, and the two
  resources it finds. The references are 0 to 5, in this order.
\<close>

definition example_heap :: "string list \<Rightarrow> string option \<Rightarrow> heap" where
  "example_heap required foo_id a =
     (if a = 0 then (JS_new ''foo/index.js'')\<lparr>id' := foo_id\<rparr>
      else if a = 1 then (JS_new ''bar.js'')\<lparr>id' := Some ''Bar'', requiredModules := required\<rparr>
      else if a = 2 then (JS_new ''baz.js'')\<lparr>id' := Some ''Baz''\<rparr>
      else if a = 3 then
        (JS_new ''lib/ui/menu.js'')
          \<lparr>id' := Some ''Menu'',
           requiredModules := [''./item'', ''../util/dom'', ''./missing'', ''fs'']\<rparr>
      else if a = 4 then (JS_new ''lib/ui/item.js'')\<lparr>id' := Some ''Item''\<rparr>
      else (JS_new ''lib/util/dom/index.js'')\<lparr>id' := Some ''Dom''\<rparr>)"

definition example_build :: ResourceMap where
  "example_build p =
     (if p = ''foo/index.js'' then Some 0
      else if p = ''bar.js'' then Some 1
      else if p = ''baz.js'' then Some 2
      else if p = ''lib/ui/menu.js'' then Some 3
      else if p = ''lib/ui/item.js'' then Some 4
      else if p = ''lib/util/dom/index.js'' then Some 5
      else None)"

section \<open>Properties of file-extension matching\<close>

lemma lastIndexOf_at_end:
  assumes "length t \<le> length s"
  shows "lastIndexOf s t = int (length s - length t)
           \<longleftrightarrow> take (length t) (drop (length s - length t) s) = t"
proof -
  define n where "n = length s - length t"
  define P where "P = (\<lambda>k. take (length t) (drop k s) = t)"
  have cands: "rev [0 ..< Suc n] = n # rev [0 ..< n]" by simp
  have "\<not> length s < length t" using assms by simp
  then have "lastIndexOf s t =
      (case filter P (rev [0 ..< Suc n]) of [] \<Rightarrow> - 1 | k # _ \<Rightarrow> int k)"
    unfolding lastIndexOf_def n_def P_def by (simp only: if_False)
  then have unfolded: "lastIndexOf s t =
      (case filter P (n # rev [0 ..< n]) of [] \<Rightarrow> - 1 | k # _ \<Rightarrow> int k)"
    by (simp only: cands)
  have rest: "(case filter P (rev [0 ..< n]) of [] \<Rightarrow> - 1 | k # _ \<Rightarrow> int k) \<noteq> int n"
  proof (cases "filter P (rev [0 ..< n])")
    case Nil
    then show ?thesis by simp
  next
    case (Cons k ks)
    then have "k \<in> set (filter P (rev [0 ..< n]))" by simp
    then have "k < n" by simp
    with Cons show ?thesis by simp
  qed
  have "lastIndexOf s t = int n \<longleftrightarrow> P n"
  proof (cases "P n")
    case True
    then show ?thesis using unfolded by simp
  next
    case False
    then show ?thesis using unfolded rest by simp
  qed
  then show ?thesis by (simp only: P_def n_def)
qed

lemma suffix_iff_take_drop:
  assumes "length t \<le> length s"
  shows "suffix t s \<longleftrightarrow> take (length t) (drop (length s - length t) s) = t"
proof
  assume "suffix t s"
  then obtain ys where "s = ys @ t" by (auto simp: suffix_def)
  then show "take (length t) (drop (length s - length t) s) = t" by simp
next
  assume h: "take (length t) (drop (length s - length t) s) = t"
  have "length (drop (length s - length t) s) = length t" using assms by simp
  then have "drop (length s - length t) s = t" using h by simp
  then have "take (length s - length t) s @ t = s" by (metis append_take_drop_id)
  then show "suffix t s" by (rule suffixI [OF sym])
qed

lemma lastIndexOf_short: "length s < length t \<Longrightarrow> lastIndexOf s t = - 1"
  by (simp add: lastIndexOf_def)

text \<open>
  What \<open>matchPath\<close> computes: it accepts the paths that end in \<^verbatim>\<open>.js\<close>, and every path of
  exactly two characters, where \<^verbatim>\<open>lastIndexOf\<close> finds nothing and answers \<open>-1\<close>, which is
  also the length less three.
\<close>

lemma matchPath_iff: "matchPath p \<longleftrightarrow> suffix ''.js'' p \<or> length p = 2"
proof (cases "3 \<le> length p")
  case True
  then have len: "length ''.js'' \<le> length p" by simp
  have "int (length p) - 3 = int (length p - length ''.js'')" using True by simp
  then have "matchPath p \<longleftrightarrow> lastIndexOf p ''.js'' = int (length p - length ''.js'')"
    by (simp only: matchPath_def)
  also have "\<dots> \<longleftrightarrow> take (length ''.js'') (drop (length p - length ''.js'') p) = ''.js''"
    by (rule lastIndexOf_at_end [OF len])
  also have "\<dots> \<longleftrightarrow> suffix ''.js'' p"
    by (rule suffix_iff_take_drop [OF len, symmetric])
  finally show ?thesis using True by simp
next
  case False
  then have short: "length p < length ''.js''" by simp
  have "\<not> suffix ''.js'' p" using short by (auto simp: suffix_def)
  moreover have "lastIndexOf p ''.js'' = - 1" using short by (rule lastIndexOf_short)
  ultimately show ?thesis using False unfolding matchPath_def by auto
qed

text \<open>
  C7. The claim: \<open>matchPath\<close> returns true exactly for the paths that end in the three
  characters \<^verbatim>\<open>.js\<close>, and false for every other string, the strings shorter than three
  characters included. The code at the two-character path \<^verbatim>\<open>ab\<close>: it does not end in
  \<^verbatim>\<open>.js\<close>, and \<open>matchPath\<close> returns true.
\<close>

theorem matchPath_two_characters:
  "matchPath ''ab'' \<and> \<not> suffix ''.js'' ''ab''"
  by (simp add: matchPath_def lastIndexOf_def suffix_def)


section \<open>Properties of tag interpretation\<close>

lemmas eval_strings = split_ws_def js_whitespace_def index_js_def concat_js_def

lemma foldl_options:
  "foldl (\<lambda>js key. js\<lparr>options := (options js)(key \<mapsto> True)\<rparr>) js keys
     = js\<lparr>options := foldl (\<lambda>m key. m(key \<mapsto> True)) (options js) keys\<rparr>"
  by (induction keys arbitrary: js) simp_all

lemma id_parseDocblockOption:
  "id' (parseDocblockOption js (name, val)) =
     (if name = ''provides'' \<or> name = ''providesModule'' then index_js (split_ws val) 0
      else if name = ''providesLegacy''
        then Some (concat_js ''legacy:'' (index_js (split_ws val) 0))
      else id' js)"
  by (simp add: foldl_options)

lemma options_parseDocblockOption:
  "options (parseDocblockOption js p) =
     foldl (\<lambda>m key. m(key \<mapsto> True)) (options js) (option_tokens [p])"
  by (cases p) (simp add: foldl_options option_tokens_def)

lemma requiredModules_parseDocblockOption:
  "requiredModules (parseDocblockOption js p) =
     requiredModules js @ filter (\<lambda>v. v \<noteq> []) (jsx_values [p])"
  by (cases p) (simp add: foldl_options jsx_values_def)

lemma jsx_parseDocblockOption:
  "jsxDOMImplementor (parseDocblockOption js p) =
     (if fst p = ''jsx'' then Some (snd p) else jsxDOMImplementor js)"
  "isJSXEnabled (parseDocblockOption js p) \<longleftrightarrow> isJSXEnabled js \<or> fst p = ''jsx''"
  by (cases p, simp add: foldl_options)+

declare parseDocblockOption.simps [simp del]

lemma id_other_tag: "\<not> identity_tag p \<Longrightarrow> id' (parseDocblockOption js p) = id' js"
  by (cases p) (simp add: id_parseDocblockOption identity_tag_def)

lemma id_identity_tag:
  "identity_tag p \<Longrightarrow> id' (parseDocblockOption js p) = id' (parseDocblockOption js0 p)"
  by (cases p) (auto simp add: id_parseDocblockOption identity_tag_def)

lemma id_foldl_parseDocblockOption:
  "id' (foldl parseDocblockOption js props) =
     (if filter identity_tag props = [] then id' js
      else id' (parseDocblockOption js0 (last (filter identity_tag props))))"
proof (induction props rule: rev_induct)
  case Nil
  show ?case by simp
next
  case (snoc p props)
  show ?case
  proof (cases "identity_tag p")
    case True
    then show ?thesis using id_identity_tag [OF True] by simp
  next
    case False
    then show ?thesis using snoc id_other_tag [OF False] by simp
  qed
qed

lemma foldl_keys_lookup:
  "(foldl (\<lambda>m key. m(key \<mapsto> True)) m keys) k = (if k \<in> set keys then Some True else m k)"
  by (induction keys arbitrary: m) auto

lemma option_tokens_snoc: "option_tokens (props @ [p]) = option_tokens props @ option_tokens [p]"
  by (simp add: option_tokens_def)

lemma jsx_values_snoc: "jsx_values (props @ [p]) = jsx_values props @ jsx_values [p]"
  by (simp add: jsx_values_def)

lemma options_foldl_parseDocblockOption:
  "options (foldl parseDocblockOption js props) =
     foldl (\<lambda>m key. m(key \<mapsto> True)) (options js) (option_tokens props)"
proof (induction props rule: rev_induct)
  case Nil
  show ?case by (simp add: option_tokens_def)
next
  case (snoc p props)
  have "options (foldl parseDocblockOption js (props @ [p]))
          = options (parseDocblockOption (foldl parseDocblockOption js props) p)"
    by simp
  also have "\<dots> = foldl (\<lambda>m key. m(key \<mapsto> True))
                      (options (foldl parseDocblockOption js props)) (option_tokens [p])"
    by (rule options_parseDocblockOption)
  also have "\<dots> = foldl (\<lambda>m key. m(key \<mapsto> True)) (options js)
                      (option_tokens (props @ [p]))"
    by (simp only: snoc option_tokens_snoc foldl_append)
  finally show ?case .
qed

lemma requiredModules_foldl_parseDocblockOption:
  "requiredModules (foldl parseDocblockOption js props) =
     requiredModules js @ filter (\<lambda>v. v \<noteq> []) (jsx_values props)"
proof (induction props rule: rev_induct)
  case Nil
  show ?case by (simp add: jsx_values_def)
next
  case (snoc p props)
  then show ?case by (simp add: requiredModules_parseDocblockOption jsx_values_snoc)
qed

lemma jsxDOMImplementor_foldl_parseDocblockOption:
  "jsxDOMImplementor (foldl parseDocblockOption js props) =
     (if jsx_values props = [] then jsxDOMImplementor js else Some (last (jsx_values props)))"
proof (induction props rule: rev_induct)
  case Nil
  show ?case by (simp add: jsx_values_def)
next
  case (snoc p props)
  then show ?case by (simp add: jsx_parseDocblockOption jsx_values_def)
qed

lemma isJSXEnabled_foldl_parseDocblockOption:
  "isJSXEnabled (foldl parseDocblockOption js props) \<longleftrightarrow>
     isJSXEnabled js \<or> jsx_values props \<noteq> []"
proof (induction props rule: rev_induct)
  case Nil
  show ?case by (simp add: jsx_values_def)
next
  case (snoc p props)
  then show ?case by (simp add: jsx_parseDocblockOption jsx_values_def)
qed

text \<open>
  C1, as amended. The pairs are folded in the order of the source. Among the tags
  \<^verbatim>\<open>provides\<close>, \<^verbatim>\<open>providesModule\<close> and \<^verbatim>\<open>providesLegacy\<close> the last one decides the id: the
  final id is the id that tag gives to any descriptor \<open>js0\<close>, and a docblock with none
  of them leaves the id as it was. The id such a tag gives is the first token of its
  value, after \<^verbatim>\<open>legacy:\<close> for \<^verbatim>\<open>providesLegacy\<close>. The tag \<^verbatim>\<open>javelin\<close> sets the three flags
  \<^verbatim>\<open>isModule\<close>, \<^verbatim>\<open>isJavelin\<close> and \<^verbatim>\<open>isRunWhenReady\<close> and nothing else, so never the id.
\<close>

theorem last_provides_tag_wins:
  "id' (parseDocblockOptions env js sourceCode) =
     (let tags = filter identity_tag (docblock_parse env (docblock_extract env sourceCode))
      in if tags = [] then id' js else id' (parseDocblockOption js0 (last tags)))
   \<and> id' (parseDocblockOption js0 (''provides'', v)) = index_js (split_ws v) 0
   \<and> id' (parseDocblockOption js0 (''providesModule'', v)) = index_js (split_ws v) 0
   \<and> id' (parseDocblockOption js0 (''providesLegacy'', v))
       = Some (concat_js ''legacy:'' (index_js (split_ws v) 0))
   \<and> parseDocblockOption js0 (''javelin'', v)
       = js0\<lparr>isModule := True, isJavelin := True, isRunWhenReady := True\<rparr>"
proof -
  have "id' (parseDocblockOptions env js sourceCode) =
     (let tags = filter identity_tag (docblock_parse env (docblock_extract env sourceCode))
      in if tags = [] then id' js else id' (parseDocblockOption js0 (last tags)))"
    unfolding parseDocblockOptions_def Let_def by (rule id_foldl_parseDocblockOption)
  moreover have "parseDocblockOption js0 (''javelin'', v)
       = js0\<lparr>isModule := True, isJavelin := True, isRunWhenReady := True\<rparr>"
    by (simp add: parseDocblockOption.simps)
  ultimately show ?thesis by (simp add: id_parseDocblockOption)
qed

theorem last_provides_tag_wins_witness:
  "id' (parseDocblockOptions
          (stub_collaborators
             [(''providesModule'', ''foo''), (''javelin'', ''''),
              (''providesLegacy'', ''bar baz''), (''css'', ''x.css'')] [])
          (JS_new ''a.js'') ''src'')
     = Some ''legacy:bar''
   \<and> id' (parseDocblockOption (JS_new ''a.js'') (''provides'', ''foo bar'')) = Some ''foo''
   \<and> id' (parseDocblockOption (JS_new ''a.js'') (''javelin'', ''bar'')) = None
   \<and> isModule (parseDocblockOption (JS_new ''a.js'') (''javelin'', ''bar''))
   \<and> isJavelin (parseDocblockOption (JS_new ''a.js'') (''javelin'', ''bar''))
   \<and> isRunWhenReady (parseDocblockOption (JS_new ''a.js'') (''javelin'', ''bar''))"
proof -
  note tags = last_provides_tag_wins
          [where env = "stub_collaborators
                          [(''providesModule'', ''foo''), (''javelin'', ''''),
                           (''providesLegacy'', ''bar baz''), (''css'', ''x.css'')] []"
             and js = "JS_new ''a.js''" and sourceCode = "''src''" and ?js0.0 = "JS_new ''a.js''"]
  have "id' (parseDocblockOptions
          (stub_collaborators
             [(''providesModule'', ''foo''), (''javelin'', ''''),
              (''providesLegacy'', ''bar baz''), (''css'', ''x.css'')] [])
          (JS_new ''a.js'') ''src'')
     = Some ''legacy:bar''"
    using tags [where v = "''bar baz''"]
    by (simp add: stub_collaborators_def identity_tag_def eval_strings)
  moreover have "id' (parseDocblockOption (JS_new ''a.js'') (''provides'', ''foo bar'')) = Some ''foo''"
    using tags [where v = "''foo bar''"] by (simp add: eval_strings)
  moreover have "id' (parseDocblockOption (JS_new ''a.js'') (''javelin'', ''bar'')) = None"
    "isModule (parseDocblockOption (JS_new ''a.js'') (''javelin'', ''bar''))"
    "isJavelin (parseDocblockOption (JS_new ''a.js'') (''javelin'', ''bar''))"
    "isRunWhenReady (parseDocblockOption (JS_new ''a.js'') (''javelin'', ''bar''))"
    using tags [where v = "''bar''"] by (simp_all add: JS_new_def)
  ultimately show ?thesis by (intro conjI)
qed

text \<open>
  The claim C1 as stated counts \<^verbatim>\<open>javelin\<close> among the tags that set the id. After
  \<^verbatim>\<open>providesModule foo\<close> and then \<^verbatim>\<open>javelin bar\<close> the id is still the first tag's \<^verbatim>\<open>foo\<close>,
  and a \<^verbatim>\<open>javelin\<close> tag alone leaves a fresh descriptor without an id.
\<close>

theorem javelin_tag_sets_no_id:
  "id' (parseDocblockOptions
          (stub_collaborators [(''providesModule'', ''foo''), (''javelin'', ''bar'')] [])
          (JS_new ''a.js'') ''src'') = Some ''foo''
   \<and> id' (parseDocblockOptions (stub_collaborators [(''javelin'', ''bar'')] [])
          (JS_new ''a.js'') ''src'') = None"
  by (simp add: parseDocblockOptions_def stub_collaborators_def id_parseDocblockOption
        eval_strings JS_new_def parseDocblockOption.simps)


section \<open>Properties of ingestion\<close>

lemma ignore_parseDocblockOptions:
  "options (parseDocblockOptions env (initial_descriptor p conf) src) ''ignore'' = Some True \<longleftrightarrow>
     ''ignore'' \<in> set (option_tokens (docblock_parse env (docblock_extract env src)))"
  by (simp add: parseDocblockOptions_def options_foldl_parseDocblockOption foldl_keys_lookup
        initial_descriptor_def JS_new_def)

lemma loadFromSource_ignored:
  assumes "''ignore'' \<in> set (option_tokens (docblock_parse env (docblock_extract env src)))"
  shows "loadFromSource loader env p conf src cb
           = cb None (parseDocblockOptions env (initial_descriptor p conf) src)"
proof -
  have "options (parseDocblockOptions env (initial_descriptor p conf) src) ''ignore'' = Some True"
    using assms by (simp only: ignore_parseDocblockOptions)
  then show ?thesis
    unfolding loadFromSource_def Let_def initial_descriptor_def by simp
qed

text \<open>
  C5. When the docblock gives the token \<^verbatim>\<open>ignore\<close> to an \<^verbatim>\<open>option\<close> or \<^verbatim>\<open>options\<close> tag,
  \<open>loadFromSource\<close> does one thing whatever the loader's stages are: it invokes the
  completion callback, with no error and the descriptor as tag interpretation left it.
  Require extraction, compression and the classifier are not called, and the
  descriptor's \<^verbatim>\<open>requiredModules\<close> are the non-empty values of the \<^verbatim>\<open>jsx\<close> tags, with
  nothing from require extraction.
\<close>

theorem ignored_file_short_circuits:
  assumes "''ignore'' \<in> set (option_tokens (docblock_parse env (docblock_extract env src)))"
  shows "loadFromSource loader env p conf src completion
           = [Completion None (parseDocblockOptions env (initial_descriptor p conf) src)]
         \<and> requiredModules (parseDocblockOptions env (initial_descriptor p conf) src)
           = filter (\<lambda>v. v \<noteq> []) (jsx_values (docblock_parse env (docblock_extract env src)))"
proof -
  have "requiredModules (initial_descriptor p conf) = []" by (simp add: initial_descriptor_def JS_new_def)
  then show ?thesis
    using loadFromSource_ignored [OF assms, of loader p conf completion]
    by (simp add: completion_def parseDocblockOptions_def
          requiredModules_foldl_parseDocblockOption)
qed

theorem ignored_file_short_circuits_witness:
  "''ignore'' \<in> set (option_tokens
        (docblock_parse (stub_collaborators [(''jsx'', ''React''), (''option'', ''ignore'')] [''fs''])
           (docblock_extract
              (stub_collaborators [(''jsx'', ''React''), (''option'', ''ignore'')] [''fs''])
              ''src'')))
   \<and> loadFromSource
         (JSLoader_new (Some \<lparr> opt_networkSize = True, opt_extractJavelin = True,
                               opt_javelinsymbolsPath = None \<rparr>))
         (stub_collaborators [(''jsx'', ''React''), (''option'', ''ignore'')] [''fs''])
         ''a.js'' None ''src'' completion
       = [Completion None
            (parseDocblockOptions
               (stub_collaborators [(''jsx'', ''React''), (''option'', ''ignore'')] [''fs''])
               (initial_descriptor ''a.js'' None) ''src'')]
   \<and> requiredModules
         (parseDocblockOptions
            (stub_collaborators [(''jsx'', ''React''), (''option'', ''ignore'')] [''fs''])
            (initial_descriptor ''a.js'' None) ''src'')
       = [''React'']"
proof -
  let ?env = "stub_collaborators [(''jsx'', ''React''), (''option'', ''ignore'')] [''fs'']"
  have h: "''ignore'' \<in> set (option_tokens (docblock_parse ?env (docblock_extract ?env ''src'')))"
    by (simp add: stub_collaborators_def option_tokens_def eval_strings)
  have j: "jsx_values (docblock_parse ?env (docblock_extract ?env ''src'')) = [''React'']"
    by (simp add: stub_collaborators_def jsx_values_def)
  show ?thesis
    using h ignored_file_short_circuits [OF h] by (simp only: j) simp
qed

text \<open>
  C10, as amended. When the docblock has a \<^verbatim>\<open>jsx\<close> tag with a non-empty value \<open>v\<close> and
  gives the token \<^verbatim>\<open>ignore\<close> to an \<^verbatim>\<open>option\<close> or \<^verbatim>\<open>options\<close> tag, in either order, the
  short-circuited ingestion hands over the descriptor with every effect of the \<^verbatim>\<open>jsx\<close>
  tags in place: \<^verbatim>\<open>isJSXEnabled\<close> is set, \<^verbatim>\<open>requiredModules\<close> contains \<open>v\<close>, and
  \<^verbatim>\<open>jsxDOMImplementor\<close> holds the value of the last \<^verbatim>\<open>jsx\<close> tag of the docblock, which is
  \<open>v\<close> when the tag with the value \<open>v\<close> is the last or the only one.
\<close>

theorem ignored_file_keeps_jsx:
  assumes "''ignore'' \<in> set (option_tokens (docblock_parse env (docblock_extract env src)))"
      and "v \<in> set (jsx_values (docblock_parse env (docblock_extract env src)))"
      and "v \<noteq> []"
  shows "loadFromSource loader env p conf src completion
           = [Completion None (parseDocblockOptions env (initial_descriptor p conf) src)]
         \<and> isJSXEnabled (parseDocblockOptions env (initial_descriptor p conf) src)
         \<and> v \<in> set (requiredModules (parseDocblockOptions env (initial_descriptor p conf) src))
         \<and> jsxDOMImplementor (parseDocblockOptions env (initial_descriptor p conf) src)
             = Some (last (jsx_values (docblock_parse env (docblock_extract env src))))
         \<and> (last (jsx_values (docblock_parse env (docblock_extract env src))) = v \<longrightarrow>
              jsxDOMImplementor (parseDocblockOptions env (initial_descriptor p conf) src)
                = Some v)"
proof -
  let ?props = "docblock_parse env (docblock_extract env src)"
  let ?js = "parseDocblockOptions env (initial_descriptor p conf) src"
  have some: "jsx_values ?props \<noteq> []" using assms(2) by auto
  have "loadFromSource loader env p conf src completion = [Completion None ?js]"
    using loadFromSource_ignored [OF assms(1), of loader p conf completion]
    by (simp add: completion_def)
  moreover have "isJSXEnabled ?js"
    using some by (simp add: parseDocblockOptions_def isJSXEnabled_foldl_parseDocblockOption)
  moreover have "v \<in> set (requiredModules ?js)"
    using assms(2,3)
    by (simp add: parseDocblockOptions_def requiredModules_foldl_parseDocblockOption)
  moreover have "jsxDOMImplementor ?js = Some (last (jsx_values ?props))"
    using some by (simp add: parseDocblockOptions_def jsxDOMImplementor_foldl_parseDocblockOption)
  ultimately show ?thesis by simp
qed

lemma stub_two_jsx:
  "''ignore'' \<in> set (option_tokens
        (docblock_parse
           (stub_collaborators
              [(''jsx'', ''React''), (''jsx'', ''Preact''), (''option'', ''ignore'')] [''fs''])
           (docblock_extract
              (stub_collaborators
                 [(''jsx'', ''React''), (''jsx'', ''Preact''), (''option'', ''ignore'')] [''fs''])
              ''src'')))"
  "jsx_values
        (docblock_parse
           (stub_collaborators
              [(''jsx'', ''React''), (''jsx'', ''Preact''), (''option'', ''ignore'')] [''fs''])
           (docblock_extract
              (stub_collaborators
                 [(''jsx'', ''React''), (''jsx'', ''Preact''), (''option'', ''ignore'')] [''fs''])
              ''src''))
     = [''React'', ''Preact'']"
  by (simp_all add: stub_collaborators_def option_tokens_def jsx_values_def eval_strings)

theorem ignored_file_keeps_jsx_witness:
  "''ignore'' \<in> set (option_tokens
        (docblock_parse
           (stub_collaborators
              [(''jsx'', ''React''), (''jsx'', ''Preact''), (''option'', ''ignore'')] [''fs''])
           (docblock_extract
              (stub_collaborators
                 [(''jsx'', ''React''), (''jsx'', ''Preact''), (''option'', ''ignore'')] [''fs''])
              ''src'')))
   \<and> ''React'' \<in> set (jsx_values
        (docblock_parse
           (stub_collaborators
              [(''jsx'', ''React''), (''jsx'', ''Preact''), (''option'', ''ignore'')] [''fs''])
           (docblock_extract
              (stub_collaborators
                 [(''jsx'', ''React''), (''jsx'', ''Preact''), (''option'', ''ignore'')] [''fs''])
              ''src'')))
   \<and> ''React'' \<noteq> []
   \<and> isJSXEnabled
         (parseDocblockOptions
            (stub_collaborators
               [(''jsx'', ''React''), (''jsx'', ''Preact''), (''option'', ''ignore'')] [''fs''])
            (initial_descriptor ''a.js'' None) ''src'')
   \<and> ''React'' \<in> set (requiredModules
         (parseDocblockOptions
            (stub_collaborators
               [(''jsx'', ''React''), (''jsx'', ''Preact''), (''option'', ''ignore'')] [''fs''])
            (initial_descriptor ''a.js'' None) ''src''))
   \<and> jsxDOMImplementor
         (parseDocblockOptions
            (stub_collaborators
               [(''jsx'', ''React''), (''jsx'', ''Preact''), (''option'', ''ignore'')] [''fs''])
            (initial_descriptor ''a.js'' None) ''src'')
       = Some ''Preact''
   \<and> last (jsx_values
        (docblock_parse
           (stub_collaborators [(''jsx'', ''React''), (''option'', ''ignore'')] [''fs''])
           (docblock_extract
              (stub_collaborators [(''jsx'', ''React''), (''option'', ''ignore'')] [''fs''])
              ''src''))) = ''React''
   \<and> jsxDOMImplementor
         (parseDocblockOptions
            (stub_collaborators [(''jsx'', ''React''), (''option'', ''ignore'')] [''fs''])
            (initial_descriptor ''a.js'' None) ''src'')
       = Some ''React''"
proof -
  let ?two = "stub_collaborators
                [(''jsx'', ''React''), (''jsx'', ''Preact''), (''option'', ''ignore'')] [''fs'']"
  let ?one = "stub_collaborators [(''jsx'', ''React''), (''option'', ''ignore'')] [''fs'']"
  have h2: "''ignore'' \<in> set (option_tokens (docblock_parse ?two (docblock_extract ?two ''src'')))"
    by (rule stub_two_jsx(1))
  have j2: "jsx_values (docblock_parse ?two (docblock_extract ?two ''src'')) = [''React'', ''Preact'']"
    by (rule stub_two_jsx(2))
  have m2: "''React'' \<in> set (jsx_values (docblock_parse ?two (docblock_extract ?two ''src'')))"
    by (simp only: j2) simp
  have h1: "''ignore'' \<in> set (option_tokens (docblock_parse ?one (docblock_extract ?one ''src'')))"
    by (simp add: stub_collaborators_def option_tokens_def eval_strings)
  have j1: "jsx_values (docblock_parse ?one (docblock_extract ?one ''src'')) = [''React'']"
    by (simp add: stub_collaborators_def jsx_values_def)
  have m1: "''React'' \<in> set (jsx_values (docblock_parse ?one (docblock_extract ?one ''src'')))"
    by (simp only: j1) simp
  have n: "''React'' \<noteq> []" by simp
  note two = ignored_file_keeps_jsx
    [where env = ?two and src = "''src''" and v = "''React''" and loader = "JSLoader_new None"
       and p = "''a.js''" and conf = None, OF h2 m2 n]
  note one = ignored_file_keeps_jsx
    [where env = ?one and src = "''src''" and v = "''React''" and loader = "JSLoader_new None"
       and p = "''a.js''" and conf = None, OF h1 m1 n]
  have l1: "last (jsx_values (docblock_parse ?one (docblock_extract ?one ''src''))) = ''React''"
    by (simp only: j1) simp
  have "jsxDOMImplementor (parseDocblockOptions ?two (initial_descriptor ''a.js'' None) ''src'')
          = Some ''Preact''"
    using two by (simp only: j2) simp
  moreover have "jsxDOMImplementor (parseDocblockOptions ?one (initial_descriptor ''a.js'' None) ''src'')
          = Some ''React''"
    using one l1 by blast
  ultimately show ?thesis using h2 m2 n two l1 by (intro conjI) blast+
qed

text \<open>
  The claim C10 as stated has \<^verbatim>\<open>jsxDOMImplementor\<close> hold the value of the \<^verbatim>\<open>jsx\<close> tag it
  starts from. For a docblock with the tags \<^verbatim>\<open>jsx React\<close>, \<^verbatim>\<open>jsx Preact\<close> and
  \<^verbatim>\<open>option ignore\<close>, the tag \<^verbatim>\<open>jsx React\<close> has a non-empty value, and the descriptor handed
  over has \<^verbatim>\<open>Preact\<close> as its implementor.
\<close>

theorem ignored_file_keeps_last_jsx:
  "''ignore'' \<in> set (option_tokens
        (docblock_parse
           (stub_collaborators
              [(''jsx'', ''React''), (''jsx'', ''Preact''), (''option'', ''ignore'')] [''fs''])
           (docblock_extract
              (stub_collaborators
                 [(''jsx'', ''React''), (''jsx'', ''Preact''), (''option'', ''ignore'')] [''fs''])
              ''src'')))
   \<and> ''React'' \<in> set (jsx_values
        (docblock_parse
           (stub_collaborators
              [(''jsx'', ''React''), (''jsx'', ''Preact''), (''option'', ''ignore'')] [''fs''])
           (docblock_extract
              (stub_collaborators
                 [(''jsx'', ''React''), (''jsx'', ''Preact''), (''option'', ''ignore'')] [''fs''])
              ''src'')))
   \<and> ''React'' \<noteq> []
   \<and> map jsxDOMImplementor
        (delivered
           (loadFromSource (JSLoader_new None)
              (stub_collaborators
                 [(''jsx'', ''React''), (''jsx'', ''Preact''), (''option'', ''ignore'')] [''fs''])
              ''a.js'' None ''src'' completion))
       = [Some ''Preact'']
   \<and> Some ''Preact'' \<noteq> Some ''React''"
proof -
  let ?two = "stub_collaborators
                [(''jsx'', ''React''), (''jsx'', ''Preact''), (''option'', ''ignore'')] [''fs'']"
  have h2: "''ignore'' \<in> set (option_tokens (docblock_parse ?two (docblock_extract ?two ''src'')))"
    by (rule stub_two_jsx(1))
  have j2: "jsx_values (docblock_parse ?two (docblock_extract ?two ''src'')) = [''React'', ''Preact'']"
    by (rule stub_two_jsx(2))
  have "loadFromSource (JSLoader_new None) ?two ''a.js'' None ''src'' completion
          = [Completion None (parseDocblockOptions ?two (initial_descriptor ''a.js'' None) ''src'')]"
    using loadFromSource_ignored [OF h2, of "JSLoader_new None" "''a.js''" None completion]
    by (simp add: completion_def)
  moreover have "jsxDOMImplementor
          (parseDocblockOptions ?two (initial_descriptor ''a.js'' None) ''src'') = Some ''Preact''"
    using j2 by (simp add: parseDocblockOptions_def jsxDOMImplementor_foldl_parseDocblockOption)
  ultimately have "map jsxDOMImplementor
        (delivered (loadFromSource (JSLoader_new None) ?two ''a.js'' None ''src'' completion))
       = [Some ''Preact'']"
    by simp
  then show ?thesis using h2 j2 by simp
qed

lemma extractExtra_neither_stage:
  "neither_stage options0 \<Longrightarrow>
     extractExtra (JSLoader_new options0) env js src cb = NextTurn # cb None js"
  by (cases options0) (auto simp add: neither_stage_def JSLoader_new_def Let_def falsy_def)

lemma loadFromSource_not_ignored:
  assumes "''ignore'' \<notin> set (option_tokens (docblock_parse env (docblock_extract env src)))"
  shows "loadFromSource loader env p conf src cb =
     (let js = parseDocblockOptions env (initial_descriptor p conf) src
      in if isModule js then
           ExtractRequireCalls src #
           extractExtra loader env
             ((case conf of
                 None \<Rightarrow> js
               | Some c \<Rightarrow> if falsy (id' js) then js\<lparr>id' := resolveID c (path js)\<rparr> else js)
              \<lparr>requiredModules :=
                 requiredModules
                   (case conf of
                      None \<Rightarrow> js
                    | Some c \<Rightarrow> if falsy (id' js) then js\<lparr>id' := resolveID c (path js)\<rparr> else js)
                 @ extractRequireCalls env src\<rparr>)
             src cb
         else extractExtra loader env js src cb)"
proof -
  have "options (parseDocblockOptions env (initial_descriptor p conf) src) ''ignore'' \<noteq> Some True"
    using assms by (simp only: ignore_parseDocblockOptions) simp
  then show ?thesis
    unfolding loadFromSource_def Let_def initial_descriptor_def by simp
qed

lemma same_turn_simps:
  "same_turn (NextTurn # tr) = []"
  "same_turn (ExtractRequireCalls s # tr) = ExtractRequireCalls s # same_turn tr"
  "same_turn (Completion err js # tr) = Completion err js # same_turn tr"
  "same_turn [] = []"
  by (simp_all add: same_turn_def)

text \<open>
  C4, as amended. A loader constructed with neither optional stage completes in a later
  turn for every input whose docblock does not give the token \<^verbatim>\<open>ignore\<close> to an \<^verbatim>\<open>option\<close>
  or \<^verbatim>\<open>options\<close> tag: no invocation of the completion callback falls into the turn of the
  call, and there is exactly one overall. For a docblock with that token the callback is
  invoked in the turn of the call itself, with the descriptor as tag interpretation left
  it.
\<close>

theorem neither_stage_completes_later_unless_ignored:
  assumes "neither_stage options0"
  shows "(''ignore'' \<notin> set (option_tokens (docblock_parse env (docblock_extract env src)))
            \<longrightarrow> completions (same_turn
                    (loadFromSource (JSLoader_new options0) env p conf src completion)) = []
              \<and> length (completions
                    (loadFromSource (JSLoader_new options0) env p conf src completion)) = 1)
       \<and> (''ignore'' \<in> set (option_tokens (docblock_parse env (docblock_extract env src)))
            \<longrightarrow> completions (same_turn
                    (loadFromSource (JSLoader_new options0) env p conf src completion))
                = [Completion None (parseDocblockOptions env (initial_descriptor p conf) src)])"
proof (intro conjI impI)
  assume no: "''ignore'' \<notin> set (option_tokens (docblock_parse env (docblock_extract env src)))"
  show "completions (same_turn
          (loadFromSource (JSLoader_new options0) env p conf src completion)) = []"
    unfolding loadFromSource_not_ignored [OF no] Let_def
    by (simp add: extractExtra_neither_stage [OF assms] same_turn_simps completions_def)
  show "length (completions
          (loadFromSource (JSLoader_new options0) env p conf src completion)) = 1"
    unfolding loadFromSource_not_ignored [OF no] Let_def
    by (simp add: extractExtra_neither_stage [OF assms] completions_def completion_def)
next
  assume yes: "''ignore'' \<in> set (option_tokens (docblock_parse env (docblock_extract env src)))"
  show "completions (same_turn
          (loadFromSource (JSLoader_new options0) env p conf src completion))
        = [Completion None (parseDocblockOptions env (initial_descriptor p conf) src)]"
    unfolding loadFromSource_ignored [OF yes]
    by (simp add: completion_def same_turn_simps completions_def)
qed

theorem neither_stage_completes_later_unless_ignored_witness:
  "neither_stage None
   \<and> ''ignore'' \<notin> set (option_tokens
        (docblock_parse (stub_collaborators [(''providesModule'', ''A'')] [''b''])
           (docblock_extract (stub_collaborators [(''providesModule'', ''A'')] [''b'']) ''src'')))
   \<and> completions (same_turn
        (loadFromSource (JSLoader_new None) (stub_collaborators [(''providesModule'', ''A'')] [''b''])
           ''a.js'' None ''src'' completion)) = []
   \<and> length (completions
        (loadFromSource (JSLoader_new None) (stub_collaborators [(''providesModule'', ''A'')] [''b''])
           ''a.js'' None ''src'' completion)) = 1
   \<and> ''ignore'' \<in> set (option_tokens
        (docblock_parse (stub_collaborators [(''option'', ''ignore'')] [])
           (docblock_extract (stub_collaborators [(''option'', ''ignore'')] []) ''src'')))
   \<and> completions (same_turn
        (loadFromSource (JSLoader_new None) (stub_collaborators [(''option'', ''ignore'')] [])
           ''a.js'' None ''src'' completion))
       = [Completion None
            (parseDocblockOptions (stub_collaborators [(''option'', ''ignore'')] [])
               (initial_descriptor ''a.js'' None) ''src'')]"
proof -
  let ?env1 = "stub_collaborators [(''providesModule'', ''A'')] [''b'']"
  let ?env2 = "stub_collaborators [(''option'', ''ignore'')] []"
  have n: "neither_stage None" by (simp add: neither_stage_def)
  have h1: "''ignore'' \<notin> set (option_tokens (docblock_parse ?env1 (docblock_extract ?env1 ''src'')))"
    by (simp add: stub_collaborators_def option_tokens_def eval_strings)
  have h2: "''ignore'' \<in> set (option_tokens (docblock_parse ?env2 (docblock_extract ?env2 ''src'')))"
    by (simp add: stub_collaborators_def option_tokens_def eval_strings)
  show ?thesis
    using n h1 h2
      neither_stage_completes_later_unless_ignored [OF n, of ?env1 "''src''" "''a.js''" None]
      neither_stage_completes_later_unless_ignored [OF n, of ?env2 "''src''" "''a.js''" None]
    by blast
qed

text \<open>
  The claim C4 as stated has the callback never invoked in the turn of the call. For a
  file whose docblock says \<^verbatim>\<open>option ignore\<close>, a loader with no stage invokes it in that
  very turn.
\<close>

theorem ignored_file_completes_in_same_turn:
  "length (completions (same_turn
     (loadFromSource (JSLoader_new None) (stub_collaborators [(''option'', ''ignore'')] [])
        ''a.js'' None ''src'' completion))) = 1"
proof -
  let ?env = "stub_collaborators [(''option'', ''ignore'')] []"
  have h: "''ignore'' \<in> set (option_tokens (docblock_parse ?env (docblock_extract ?env ''src'')))"
    by (simp add: stub_collaborators_def option_tokens_def eval_strings)
  show ?thesis
    unfolding loadFromSource_ignored [OF h]
    by (simp add: completion_def same_turn_simps completions_def)
qed

section \<open>What the optional stages leave alone\<close>

text \<open>
  Whatever stages the loader runs, a descriptor that reaches the completion callback
  differs from the one the stages were given in four fields at most: the id, the two
  lists of symbols and the size.
\<close>

lemma docblock_fields_eqD:
  assumes "docblock_fields js' = docblock_fields js"
  shows "requiredModules js' = requiredModules js"
    and "requiredCSS js' = requiredCSS js"
    and "requiredLegacyComponents js' = requiredLegacyComponents js"
    and "options js' = options js"
    and "isModule js' = isModule js"
proof -
  have "requiredModules (docblock_fields js') = requiredModules (docblock_fields js)"
    using assms by simp
  then show "requiredModules js' = requiredModules js" by (simp add: docblock_fields_def)
  have "requiredCSS (docblock_fields js') = requiredCSS (docblock_fields js)"
    using assms by simp
  then show "requiredCSS js' = requiredCSS js" by (simp add: docblock_fields_def)
  have "requiredLegacyComponents (docblock_fields js') = requiredLegacyComponents (docblock_fields js)"
    using assms by simp
  then show "requiredLegacyComponents js' = requiredLegacyComponents js"
    by (simp add: docblock_fields_def)
  have "options (docblock_fields js') = options (docblock_fields js)"
    using assms by simp
  then show "options js' = options js" by (simp add: docblock_fields_def)
  have "isModule (docblock_fields js') = isModule (docblock_fields js)"
    using assms by simp
  then show "isModule js' = isModule js" by (simp add: docblock_fields_def)
qed

lemma javelinSymbolsLine_frame:
  "javelinSymbolsLine (d, r, js) line = (d', r', js') \<Longrightarrow> js'\<lparr>id' := x\<rparr> = js\<lparr>id' := x\<rparr>"
  by (auto simp add: Let_def split: option.splits if_splits)

declare javelinSymbolsLine.simps [simp del]

lemma foldl_javelinSymbolsLine_frame:
  "foldl javelinSymbolsLine (d, r, js) lines = (d', r', js') \<Longrightarrow> js'\<lparr>id' := x\<rparr> = js\<lparr>id' := x\<rparr>"
proof (induction lines arbitrary: d r js)
  case Nil
  then show ?case by simp
next
  case (Cons line lines)
  obtain d1 r1 js1 where step: "javelinSymbolsLine (d, r, js) line = (d1, r1, js1)"
    by (cases "javelinSymbolsLine (d, r, js) line") auto
  have "foldl javelinSymbolsLine (d1, r1, js1) lines = (d', r', js')"
    using Cons.prems by (simp only: foldl_Cons step)
  then have "js'\<lparr>id' := x\<rparr> = js1\<lparr>id' := x\<rparr>" by (rule Cons.IH)
  also have "\<dots> = js\<lparr>id' := x\<rparr>" using step by (rule javelinSymbolsLine_frame)
  finally show ?case .
qed

lemma javelinSymbolsCallback_frame:
  assumes "\<And>err js1. docblock_fields js1 = docblock_fields js \<Longrightarrow> Completion e js' \<in> set (cb err js1)
             \<Longrightarrow> docblock_fields js' = docblock_fields js"
      and "Completion e js' \<in> set (javelinSymbolsCallback js output cb)"
  shows "docblock_fields js' = docblock_fields js"
proof -
  obtain d r js1 where fold: "foldl javelinSymbolsLine ([], [], js) (split_on CHR 0x0A output) = (d, r, js1)"
    by (cases "foldl javelinSymbolsLine ([], [], js) (split_on CHR 0x0A output)") auto
  have "js1\<lparr>id' := None\<rparr> = js\<lparr>id' := None\<rparr>"
    using fold by (rule foldl_javelinSymbolsLine_frame)
  then have "docblock_fields (js1\<lparr>definedJavelinSymbols := d, requiredJavelinSymbols := r\<rparr>)
               = docblock_fields js"
    by (simp add: docblock_fields_def)
  moreover have "Completion e js' \<in> set (cb None (js1\<lparr>definedJavelinSymbols := d, requiredJavelinSymbols := r\<rparr>))"
    using assms(2) by (simp add: javelinSymbolsCallback_def fold)
  ultimately show ?thesis using assms(1) by blast
qed

lemma completion_frame:
  "docblock_fields js1 = docblock_fields js \<Longrightarrow> Completion e js' \<in> set (completion err js1)
     \<Longrightarrow> docblock_fields js' = docblock_fields js"
  by (simp add: completion_def)

lemma extractNetworkSize_frame:
  assumes "\<And>err js1. docblock_fields js1 = docblock_fields js \<Longrightarrow> Completion e js' \<in> set (cb err js1)
             \<Longrightarrow> docblock_fields js' = docblock_fields js"
      and "Completion e js' \<in> set (extractNetworkSize env js src cb)"
  shows "docblock_fields js' = docblock_fields js"
proof (cases "zlib_deflate env src")
  case (Inl err)
  then show ?thesis using assms(2) by (simp add: extractNetworkSize_def)
next
  case (Inr buffer)
  have "docblock_fields (js\<lparr>networkSize := Some (length buffer)\<rparr>) = docblock_fields js"
    by (simp add: docblock_fields_def)
  moreover have "Completion e js' \<in> set (cb None (js\<lparr>networkSize := Some (length buffer)\<rparr>))"
    using assms(2) Inr by (simp add: extractNetworkSize_def)
  ultimately show ?thesis using assms(1) by blast
qed

lemma extractJavelinSymbols_frame:
  assumes "\<And>err js1. docblock_fields js1 = docblock_fields js \<Longrightarrow> Completion e js' \<in> set (cb err js1)
             \<Longrightarrow> docblock_fields js' = docblock_fields js"
      and "Completion e js' \<in> set (extractJavelinSymbols symbolsPath env js src cb)"
  shows "docblock_fields js' = docblock_fields js"
proof (cases "isJavelin js")
  case False
  then have "Completion e js' \<in> set (cb None js)"
    using assms(2) by (simp add: extractJavelinSymbols_def)
  then show ?thesis using assms(1) by blast
next
  case True
  then have "Completion e js' \<in> set (javelinSymbolsCallback js (javelinsymbols env symbolsPath src) cb)"
    using assms(2) by (simp add: extractJavelinSymbols_def)
  then show ?thesis using assms(1) by (rule javelinSymbolsCallback_frame [rotated])
qed

lemma extractExtra_frame:
  assumes "Completion e js' \<in> set (extractExtra (JSLoader_new options0) env js src completion)"
  shows "docblock_fields js' = docblock_fields js"
proof -
  define opts where "opts = (case options0 of
      None \<Rightarrow> \<lparr> opt_networkSize = False, opt_extractJavelin = False, opt_javelinsymbolsPath = None \<rparr>
    | Some given \<Rightarrow> given)"
  define symbolsPath where "symbolsPath = (case opt_javelinsymbolsPath opts of
      None \<Rightarrow> ''/scripts/javelin/javelinsymbols''
    | Some p \<Rightarrow> if p = [] then ''/scripts/javelin/javelinsymbols'' else p)"
  define jav where "jav \<longleftrightarrow> opt_extractJavelin opts \<or> \<not> falsy (opt_javelinsymbolsPath opts)"
  have extra: "extractExtra (JSLoader_new options0) =
      (if jav \<and> opt_networkSize opts then
         (\<lambda>env js sourceCode cb.
            extractJavelinSymbols symbolsPath env js sourceCode
              (\<lambda>err js'. extractNetworkSize env js' sourceCode cb))
       else if jav then extractJavelinSymbols symbolsPath
       else if opt_networkSize opts then extractNetworkSize
       else (\<lambda>env js sourceCode cb. NextTurn # cb None js))"
    by (simp add: JSLoader_new_def Let_def opts_def symbolsPath_def jav_def)
  have last_stage: "docblock_fields js2 = docblock_fields js \<Longrightarrow>
      Completion e js' \<in> set (extractNetworkSize env js2 src completion) \<Longrightarrow>
      docblock_fields js' = docblock_fields js" for js2
    using extractNetworkSize_frame [of js2 e js' completion env src] completion_frame
    by metis
  consider (both) "jav" "opt_networkSize opts"
    | (javelin) "jav" "\<not> opt_networkSize opts"
    | (size) "\<not> jav" "opt_networkSize opts"
    | (none) "\<not> jav" "\<not> opt_networkSize opts"
    by blast
  then show ?thesis
  proof cases
    case both
    then have "Completion e js' \<in> set (extractJavelinSymbols symbolsPath env js src
                 (\<lambda>err js'. extractNetworkSize env js' src completion))"
      using assms by (simp add: extra)
    then show ?thesis
      using extractJavelinSymbols_frame
              [of js e js' "\<lambda>err js'. extractNetworkSize env js' src completion" symbolsPath env src]
            last_stage
      by blast
  next
    case javelin
    then have "Completion e js' \<in> set (extractJavelinSymbols symbolsPath env js src completion)"
      using assms by (simp add: extra)
    then show ?thesis
      using extractJavelinSymbols_frame [of js e js' completion symbolsPath env src]
            completion_frame
      by blast
  next
    case size
    then have "Completion e js' \<in> set (extractNetworkSize env js src completion)"
      using assms by (simp add: extra)
    then show ?thesis using last_stage [of js] by simp
  next
    case none
    then have "Completion e js' \<in> set (NextTurn # completion None js)"
      using assms by (simp add: extra)
    then show ?thesis by (simp add: completion_def)
  qed
qed

text \<open>
  C9, as amended. For a source text with no docblock (no pair is extracted), every
  descriptor handed to the completion callback, by a loader with any stages, has no
  required legacy component, no required CSS and no option, and is a module exactly
  when a configuration was supplied. Its \<^verbatim>\<open>requiredModules\<close> are empty when no
  configuration was supplied, and otherwise they are the \<^verbatim>\<open>require\<close> calls extracted from
  the source, in their order.
\<close>

theorem no_docblock_descriptor:
  assumes "docblock_parse env (docblock_extract env src) = []"
      and "Completion err js \<in> set (loadFromSource (JSLoader_new options0) env p conf src completion)"
  shows "requiredLegacyComponents js = [] \<and> requiredCSS js = [] \<and> options js = Map.empty
         \<and> (isModule js \<longleftrightarrow> conf \<noteq> None)
         \<and> requiredModules js = (if conf = None then [] else extractRequireCalls env src)"
proof -
  have parsed: "parseDocblockOptions env js0 src = js0" for js0
    by (simp add: parseDocblockOptions_def assms(1))
  have "''ignore'' \<notin> set (option_tokens (docblock_parse env (docblock_extract env src)))"
    by (simp add: assms(1) option_tokens_def)
  note trace = loadFromSource_not_ignored [OF this, of "JSLoader_new options0" p conf completion]
  show ?thesis
  proof (cases conf)
    case None
    then have "Completion err js \<in> set (extractExtra (JSLoader_new options0) env (JS_new p) src completion)"
      using assms(2) unfolding trace by (simp add: parsed initial_descriptor_def JS_new_def)
    then have "docblock_fields js = docblock_fields (JS_new p)" by (rule extractExtra_frame)
    from docblock_fields_eqD [OF this] show ?thesis using None by (simp add: JS_new_def)
  next
    case (Some c)
    define js3 where "js3 = (JS_new p)\<lparr>isModule := True, id' := resolveID c p,
                                     requiredModules := extractRequireCalls env src\<rparr>"
    have "Completion err js \<in> set (ExtractRequireCalls src #
            extractExtra (JSLoader_new options0) env js3 src completion)"
      using assms(2) unfolding trace
      by (simp add: parsed initial_descriptor_def JS_new_def Some falsy_def js3_def)
    then have "Completion err js \<in> set (extractExtra (JSLoader_new options0) env js3 src completion)"
      by simp
    then have "docblock_fields js = docblock_fields js3" by (rule extractExtra_frame)
    from docblock_fields_eqD [OF this] show ?thesis using Some by (simp add: JS_new_def js3_def)
  qed
qed

lemma loadFromSource_stub_no_docblock:
  "loadFromSource (JSLoader_new None) (stub_collaborators [] [''foo'']) ''a.js''
       (Some \<lparr> resolveID = (\<lambda>p. Some p) \<rparr>) ''src'' completion
     = [ExtractRequireCalls ''src'', NextTurn,
        Completion None ((JS_new ''a.js'')\<lparr>isModule := True, id' := Some ''a.js'',
                                          requiredModules := [''foo'']\<rparr>)]"
  by (simp add: loadFromSource_def Let_def parseDocblockOptions_def stub_collaborators_def
        JS_new_def JSLoader_new_def falsy_def completion_def)

theorem no_docblock_descriptor_witness:
  "docblock_parse (stub_collaborators [] [''foo''])
       (docblock_extract (stub_collaborators [] [''foo'']) ''src'') = []
   \<and> Completion None ((JS_new ''a.js'')\<lparr>isModule := True, id' := Some ''a.js'',
                                         requiredModules := [''foo'']\<rparr>)
       \<in> set (loadFromSource (JSLoader_new None) (stub_collaborators [] [''foo'']) ''a.js''
                (Some \<lparr> resolveID = (\<lambda>p. Some p) \<rparr>) ''src'' completion)
   \<and> requiredLegacyComponents ((JS_new ''a.js'')\<lparr>isModule := True, id' := Some ''a.js'',
                                         requiredModules := [''foo'']\<rparr>) = []
   \<and> requiredCSS ((JS_new ''a.js'')\<lparr>isModule := True, id' := Some ''a.js'',
                                         requiredModules := [''foo'']\<rparr>) = []
   \<and> options ((JS_new ''a.js'')\<lparr>isModule := True, id' := Some ''a.js'',
                                         requiredModules := [''foo'']\<rparr>) = Map.empty
   \<and> isModule ((JS_new ''a.js'')\<lparr>isModule := True, id' := Some ''a.js'',
                                         requiredModules := [''foo'']\<rparr>)
   \<and> requiredModules ((JS_new ''a.js'')\<lparr>isModule := True, id' := Some ''a.js'',
                                         requiredModules := [''foo'']\<rparr>)
       = extractRequireCalls (stub_collaborators [] [''foo'']) ''src''"
proof -
  let ?env = "stub_collaborators [] [''foo'']"
  let ?js = "(JS_new ''a.js'')\<lparr>isModule := True, id' := Some ''a.js'', requiredModules := [''foo'']\<rparr>"
  let ?conf = "Some \<lparr> resolveID = (\<lambda>p. Some p) \<rparr>"
  have h1: "docblock_parse ?env (docblock_extract ?env ''src'') = []"
    by (simp add: stub_collaborators_def)
  have h2: "Completion None ?js
              \<in> set (loadFromSource (JSLoader_new None) ?env ''a.js'' ?conf ''src'' completion)"
    by (simp only: loadFromSource_stub_no_docblock) simp
  show ?thesis
    using h1 h2 no_docblock_descriptor [OF h1 h2] by simp
qed

text \<open>
  The claim C9 as stated has \<^verbatim>\<open>requiredModules\<close> empty for every source text with no
  docblock. With a configuration supplied and a source from which the extractor reads
  the call \<^verbatim>\<open>require('foo')\<close>, the descriptor handed over requires \<^verbatim>\<open>foo\<close>.
\<close>

theorem no_docblock_requires_kept:
  "map requiredModules
     (delivered (loadFromSource (JSLoader_new None) (stub_collaborators [] [''foo'']) ''a.js''
        (Some \<lparr> resolveID = (\<lambda>p. Some p) \<rparr>) ''src'' completion))
   = [[''foo'']]"
  by (simp only: loadFromSource_stub_no_docblock) simp

section \<open>Properties of the completion contract\<close>

text \<open>
  As long as the compression routine reports no error to a loader that runs the
  size-estimation stage, every call of \<open>loadFromSource\<close> invokes the completion callback
  exactly once, with no error and a descriptor, whatever the stages, the configuration
  and the docblock are.
\<close>

lemma completions_Cons:
  "completions (e # tr) = (if is_Completion e then e # completions tr else completions tr)"
  by (simp add: completions_def)

lemma extractNetworkSize_once:
  assumes "zlib_deflate env src = Inr buffer"
      and "\<And>js1. \<exists>js'. completions (cb None js1) = [Completion None js']"
  shows "\<exists>js'. completions (extractNetworkSize env js src cb) = [Completion None js']"
  using assms(2) by (simp add: extractNetworkSize_def assms(1) completions_Cons)

lemma extractJavelinSymbols_once:
  assumes "\<And>js1. \<exists>js'. completions (cb None js1) = [Completion None js']"
  shows "\<exists>js'. completions (extractJavelinSymbols symbolsPath env js src cb) = [Completion None js']"
proof (cases "isJavelin js")
  case False
  then show ?thesis using assms by (simp add: extractJavelinSymbols_def)
next
  case True
  obtain d r js1 where fold:
      "foldl javelinSymbolsLine ([], [], js) (split_on CHR 0x0A (javelinsymbols env symbolsPath src))
         = (d, r, js1)"
    by (cases "foldl javelinSymbolsLine ([], [], js)
                 (split_on CHR 0x0A (javelinsymbols env symbolsPath src))") auto
  show ?thesis
    using assms True
    by (simp add: extractJavelinSymbols_def javelinSymbolsCallback_def fold completions_Cons)
qed

lemma completion_once: "\<exists>js'. completions (completion None js1) = [Completion None js']"
  by (simp add: completion_def completions_def)

lemma extractExtra_once:
  assumes "size_stage options0 \<Longrightarrow> \<exists>buffer. zlib_deflate env src = Inr buffer"
  shows "\<exists>js'. completions (extractExtra (JSLoader_new options0) env js src completion)
           = [Completion None js']"
proof -
  define opts where "opts = (case options0 of
      None \<Rightarrow> \<lparr> opt_networkSize = False, opt_extractJavelin = False, opt_javelinsymbolsPath = None \<rparr>
    | Some given \<Rightarrow> given)"
  define symbolsPath where "symbolsPath = (case opt_javelinsymbolsPath opts of
      None \<Rightarrow> ''/scripts/javelin/javelinsymbols''
    | Some p \<Rightarrow> if p = [] then ''/scripts/javelin/javelinsymbols'' else p)"
  define jav where "jav \<longleftrightarrow> opt_extractJavelin opts \<or> \<not> falsy (opt_javelinsymbolsPath opts)"
  have extra: "extractExtra (JSLoader_new options0) =
      (if jav \<and> opt_networkSize opts then
         (\<lambda>env js sourceCode cb.
            extractJavelinSymbols symbolsPath env js sourceCode
              (\<lambda>err js'. extractNetworkSize env js' sourceCode cb))
       else if jav then extractJavelinSymbols symbolsPath
       else if opt_networkSize opts then extractNetworkSize
       else (\<lambda>env js sourceCode cb. NextTurn # cb None js))"
    by (simp add: JSLoader_new_def Let_def opts_def symbolsPath_def jav_def)
  have size: "size_stage options0 \<longleftrightarrow> opt_networkSize opts"
    by (cases options0) (simp_all add: size_stage_def opts_def)
  have last_stage: "\<exists>js'. completions (extractNetworkSize env js2 src completion)
                      = [Completion None js']" if on: "opt_networkSize opts" for js2
  proof -
    obtain buffer where "zlib_deflate env src = Inr buffer" using assms on size by blast
    then show ?thesis using completion_once by (rule extractNetworkSize_once)
  qed
  consider (both) "jav" "opt_networkSize opts"
    | (javelin) "jav" "\<not> opt_networkSize opts"
    | (size) "\<not> jav" "opt_networkSize opts"
    | (none) "\<not> jav" "\<not> opt_networkSize opts"
    by blast
  then show ?thesis
  proof cases
    case both
    have "\<exists>js'. completions (extractJavelinSymbols symbolsPath env js src
                 (\<lambda>err js'. extractNetworkSize env js' src completion)) = [Completion None js']"
      using last_stage [OF both(2)] by (rule extractJavelinSymbols_once)
    then show ?thesis using both by (simp add: extra)
  next
    case javelin
    have "\<exists>js'. completions (extractJavelinSymbols symbolsPath env js src completion)
            = [Completion None js']"
      using completion_once by (rule extractJavelinSymbols_once)
    then show ?thesis using javelin by (simp add: extra)
  next
    case size
    then show ?thesis using last_stage [of js] by (simp add: extra)
  next
    case none
    then show ?thesis by (simp add: extra completions_Cons completion_once)
  qed
qed

lemma loadFromSource_once:
  assumes "size_stage options0 \<Longrightarrow>
             ''ignore'' \<notin> set (option_tokens (docblock_parse env (docblock_extract env src))) \<Longrightarrow>
             \<exists>buffer. zlib_deflate env src = Inr buffer"
  shows "\<exists>js. completions (loadFromSource (JSLoader_new options0) env p conf src completion)
           = [Completion None js]"
proof (cases "''ignore'' \<in> set (option_tokens (docblock_parse env (docblock_extract env src)))")
  case True
  show ?thesis
    unfolding loadFromSource_ignored [OF True] by (rule completion_once)
next
  case False
  have stage: "\<exists>js'. completions (extractExtra (JSLoader_new options0) env js1 src completion)
                 = [Completion None js']" for js1
    using assms False by (intro extractExtra_once) blast
  show ?thesis
    unfolding loadFromSource_not_ignored [OF False] Let_def
    using stage by (simp add: completions_Cons)
qed

text \<open>
  C6. The claim: every call of \<open>loadFromSource\<close> invokes its completion callback exactly
  once, also when the compression routine reports an error to the size-estimation
  stage. The code with the size-estimation stage on and a compression that reports an
  error: the stage reads the length of a buffer that is not there, a \<^verbatim>\<open>TypeError\<close> goes
  uncaught, and the completion callback is not invoked at all.
\<close>

theorem compression_error_loses_completion:
  "loadFromSource
     (JSLoader_new (Some \<lparr> opt_networkSize = True, opt_extractJavelin = False,
                           opt_javelinsymbolsPath = None \<rparr>))
     (failing_deflate (stub_collaborators [] [])) ''a.js'' None ''src'' completion
   = [ZlibDeflate ''src'', NextTurn, Uncaught TypeError]
   \<and> completions
       (loadFromSource
          (JSLoader_new (Some \<lparr> opt_networkSize = True, opt_extractJavelin = False,
                                opt_javelinsymbolsPath = None \<rparr>))
          (failing_deflate (stub_collaborators [] [])) ''a.js'' None ''src'' completion)
     = []"
  by (simp add: loadFromSource_def Let_def parseDocblockOptions_def stub_collaborators_def
        failing_deflate_def JS_new_def JSLoader_new_def falsy_def extractNetworkSize_def
        completions_def)


section \<open>Properties of the symbol-classification fold\<close>

lemmas eval_symbols = javelinSymbolsCallback_def split_on_def javelinSymbolsLine.simps
  strip_line_number_def is_digit_def index_js_def concat_js_def obj_set_def obj_delete_def
  Let_def completion_def

text \<open>
  C2, as amended. Folding the classifier output of the three lines \<^verbatim>\<open>+Widget\<close>,
  \<^verbatim>\<open>?Other.method\<close> and \<^verbatim>\<open>*menu\<close> ends with the defined symbols \<^verbatim>\<open>JX.Widget\<close> and
  \<^verbatim>\<open>javelin-behavior-menu\<close>, the required symbols \<^verbatim>\<open>JX.install\<close>, \<^verbatim>\<open>JX.method\<close> and
  \<^verbatim>\<open>JX.behavior\<close>, and the id \<^verbatim>\<open>javelin-behavior-menu\<close>: a \<^verbatim>\<open>?\<close> line gives the text between
  its first and its second dot. It is the line \<^verbatim>\<open>?JX.Other.method\<close> that requires
  \<^verbatim>\<open>JX.Other\<close>.
\<close>

theorem classifier_example:
  "javelinSymbolsCallback js ''+Widget\<newline>?Other.method\<newline>*menu'' completion
     = [Completion None
          (js\<lparr>id' := Some ''javelin-behavior-menu'',
              definedJavelinSymbols := [''JX.Widget'', ''javelin-behavior-menu''],
              requiredJavelinSymbols := [''JX.install'', ''JX.method'', ''JX.behavior'']\<rparr>)]
   \<and> javelinSymbolsCallback js ''+Widget\<newline>?JX.Other.method\<newline>*menu'' completion
     = [Completion None
          (js\<lparr>id' := Some ''javelin-behavior-menu'',
              definedJavelinSymbols := [''JX.Widget'', ''javelin-behavior-menu''],
              requiredJavelinSymbols := [''JX.install'', ''JX.Other'', ''JX.behavior'']\<rparr>)]"
  by (simp add: eval_symbols)

theorem classifier_example_witness:
  "delivered (javelinSymbolsCallback (JS_new ''a.js'') ''+Widget\<newline>?Other.method\<newline>*menu''
                completion)
     = [(JS_new ''a.js'')
          \<lparr>id' := Some ''javelin-behavior-menu'',
           definedJavelinSymbols := [''JX.Widget'', ''javelin-behavior-menu''],
           requiredJavelinSymbols := [''JX.install'', ''JX.method'', ''JX.behavior'']\<rparr>]"
  using classifier_example [of "JS_new ''a.js''"] by simp

text \<open>
  The claim C2 as stated has \<^verbatim>\<open>JX.Other\<close> among the required symbols of that output. It
  is not among them.
\<close>

theorem classifier_example_requires_no_Other:
  "map requiredJavelinSymbols
     (delivered (javelinSymbolsCallback (JS_new ''a.js'')
                   ''+Widget\<newline>?Other.method\<newline>*menu'' completion))
     = [[''JX.install'', ''JX.method'', ''JX.behavior'']]
   \<and> ''JX.Other'' \<notin> set [''JX.install'', ''JX.method'', ''JX.behavior'']"
  by (simp add: eval_symbols)

text \<open>
  A symbol that is both required and defined after the fold can only be one of the two
  primitives a definition requires by itself, \<^verbatim>\<open>JX.install\<close> and \<^verbatim>\<open>JX.behavior\<close>.
\<close>

lemma javelinSymbolsLine_overlap:
  assumes "javelinSymbolsLine (d, r, js) line = (d', r', js')"
      and "set r \<inter> set d \<subseteq> {''JX.install'', ''JX.behavior''}"
  shows "set r' \<inter> set d' \<subseteq> {''JX.install'', ''JX.behavior''}"
  using assms
  by (auto simp add: javelinSymbolsLine.simps Let_def obj_set_def obj_delete_def
        split: option.splits if_splits)

lemma foldl_javelinSymbolsLine_overlap:
  assumes "foldl javelinSymbolsLine (d, r, js) lines = (d', r', js')"
      and "set r \<inter> set d \<subseteq> {''JX.install'', ''JX.behavior''}"
  shows "set r' \<inter> set d' \<subseteq> {''JX.install'', ''JX.behavior''}"
  using assms
proof (induction lines arbitrary: d r js)
  case Nil
  then show ?case by simp
next
  case (Cons line lines)
  obtain d1 r1 js1 where step: "javelinSymbolsLine (d, r, js) line = (d1, r1, js1)"
    by (cases "javelinSymbolsLine (d, r, js) line") auto
  have "foldl javelinSymbolsLine (d1, r1, js1) lines = (d', r', js')"
    using Cons.prems(1) by (simp only: foldl_Cons step)
  moreover have "set r1 \<inter> set d1 \<subseteq> {''JX.install'', ''JX.behavior''}"
    using step Cons.prems(2) by (rule javelinSymbolsLine_overlap)
  ultimately show ?case by (rule Cons.IH)
qed

lemma symbols_overlap_only_primitives:
  assumes "Completion err js' \<in> set (javelinSymbolsCallback js output completion)"
  shows "set (requiredJavelinSymbols js') \<inter> set (definedJavelinSymbols js')
           \<subseteq> {''JX.install'', ''JX.behavior''}"
proof -
  obtain d r js1 where fold:
      "foldl javelinSymbolsLine ([], [], js) (split_on CHR 0x0A output) = (d, r, js1)"
    by (cases "foldl javelinSymbolsLine ([], [], js) (split_on CHR 0x0A output)") auto
  have "set r \<inter> set d \<subseteq> {''JX.install'', ''JX.behavior''}"
    using fold by (rule foldl_javelinSymbolsLine_overlap) simp
  moreover have "js' = js1\<lparr>definedJavelinSymbols := d, requiredJavelinSymbols := r\<rparr>"
    using assms by (simp add: javelinSymbolsCallback_def fold completion_def)
  ultimately show ?thesis by simp
qed

text \<open>
  C8. The claim: after the fold no symbol is both required and defined. The code on the
  classifier output \<^verbatim>\<open>+install\<close>, the one line a file gets that installs a unit named
  \<^verbatim>\<open>install\<close>: the symbol \<^verbatim>\<open>JX.install\<close> is taken out of the required symbols, marked as
  defined, and then required again as the installer of the definition, so it ends in
  both lists.
\<close>

theorem installer_defined_and_required:
  "javelinSymbolsCallback js ''+install'' completion
     = [Completion None
          (js\<lparr>id' := Some ''JX.install'',
              definedJavelinSymbols := [''JX.install''],
              requiredJavelinSymbols := [''JX.install'']\<rparr>)]"
  by (simp add: eval_symbols)

section \<open>Properties of the path functions\<close>

text \<open>
  On relative paths made of plain segments, \<open>path_dirname\<close> drops the file name, and
  joining the directory with \<^verbatim>\<open>./\<close> and more segments appends them, while \<^verbatim>\<open>../\<close>
  first drops the last segment of the directory.
\<close>

lemma split_on_from_free:
  "sep \<notin> set s \<Longrightarrow> split_on_from sep cur s = [cur @ s]"
  by (induction s arbitrary: cur) auto

lemma split_on_from_sep:
  "sep \<notin> set s \<Longrightarrow> split_on_from sep cur (s @ sep # rest) = (cur @ s) # split_on_from sep [] rest"
  by (induction s arbitrary: cur) auto

lemma split_on_join_with:
  assumes "segs \<noteq> []" and "\<And>s. s \<in> set segs \<Longrightarrow> sep \<notin> set s"
  shows "split_on sep (join_with [sep] segs) = segs"
  using assms
proof (induction "[sep]" segs rule: join_with.induct)
  case 1
  then show ?case by simp
next
  case (2 x)
  then show ?case by (simp add: split_on_def split_on_from_free)
next
  case (3 x y ys)
  have "split_on sep (join_with [sep] (y # ys)) = y # ys"
    using 3 by simp
  then show ?case using "3.prems"(2) [of x]
    by (simp add: split_on_def split_on_from_sep)
qed

lemma join_with_append:
  "xs \<noteq> [] \<Longrightarrow> ys \<noteq> [] \<Longrightarrow> join_with sep (xs @ ys) = join_with sep xs @ sep @ join_with sep ys"
proof (induction sep xs rule: join_with.induct)
  case (1 sep)
  then show ?case by simp
next
  case (2 sep x)
  then show ?case by (cases ys) simp_all
next
  case (3 sep x y zs)
  then show ?case by simp
qed

lemma join_with_nonempty:
  "segs \<noteq> [] \<Longrightarrow> hd segs \<noteq> [] \<Longrightarrow> join_with sep segs \<noteq> []"
  by (induction sep segs rule: join_with.induct) simp_all

lemma hd_join_with:
  "segs \<noteq> [] \<Longrightarrow> hd segs \<noteq> [] \<Longrightarrow> hd (join_with sep segs) = hd (hd segs)"
  by (induction sep segs rule: join_with.induct) simp_all

lemma join_with_nonempty_last:
  "segs \<noteq> [] \<Longrightarrow> last segs \<noteq> [] \<Longrightarrow> join_with sep segs \<noteq> []"
  by (induction sep segs rule: join_with.induct) simp_all

lemma last_join_with:
  "segs \<noteq> [] \<Longrightarrow> last segs \<noteq> [] \<Longrightarrow> last (join_with sep segs) = last (last segs)"
proof (induction sep segs rule: join_with.induct)
  case (3 sep x y ys)
  have "join_with sep (y # ys) \<noteq> []"
    using 3(3) by (intro join_with_nonempty_last) simp_all
  then show ?case using 3 by simp
qed simp_all

lemma foldr_normalizeArray_step_plain:
  assumes "\<And>s. s \<in> set segs \<Longrightarrow> plain s \<or> s = ''.''"
  shows "foldr normalizeArray_step segs (kept, 0) = (filter (\<lambda>s. s \<noteq> ''.'') segs @ kept, 0)"
  using assms
proof (induction segs)
  case Nil
  show ?case by simp
next
  case (Cons s segs)
  have "foldr normalizeArray_step segs (kept, 0) = (filter (\<lambda>s. s \<noteq> ''.'') segs @ kept, 0)"
    using Cons by simp
  moreover have "plain s \<or> s = ''.''" using Cons.prems by simp
  ultimately show ?case by (auto simp add: plain_def)
qed

lemma foldr_normalizeArray_step_up:
  assumes "dirs \<noteq> []" and "\<And>s. s \<in> set dirs \<Longrightarrow> plain s"
  shows "foldr normalizeArray_step dirs (kept, Suc 0) = (butlast dirs @ kept, 0)"
proof -
  have split: "dirs = butlast dirs @ [last dirs]" using assms(1) by simp
  have l: "plain (last dirs)" using assms by simp
  have b: "\<And>s. s \<in> set (butlast dirs) \<Longrightarrow> plain s \<or> s = ''.''"
    using assms(2) by (meson in_set_butlastD)
  have nodot: "filter (\<lambda>s. s \<noteq> ''.'') (butlast dirs) = butlast dirs"
    using assms(2) by (auto simp add: plain_def filter_id_conv dest: in_set_butlastD)
  have "foldr normalizeArray_step dirs (kept, Suc 0)
          = foldr normalizeArray_step (butlast dirs)
              (normalizeArray_step (last dirs) (kept, Suc 0))"
    by (subst split) (simp only: foldr_append foldr.simps o_apply id_apply)
  also have "normalizeArray_step (last dirs) (kept, Suc 0) = (kept, 0)"
    using l by (simp add: plain_def)
  also have "foldr normalizeArray_step (butlast dirs) (kept, 0) = (butlast dirs @ kept, 0)"
    using foldr_normalizeArray_step_plain [where segs = "butlast dirs" and kept = kept] b
    by (simp only: nodot)
  finally show ?thesis .
qed

lemma dropWhile_none: "(\<And>x. x \<in> set xs \<Longrightarrow> \<not> P x) \<Longrightarrow> dropWhile P xs = xs"
  by (cases xs) auto

lemma path_normalize_relative:
  assumes "segs \<noteq> []" and "\<And>s. s \<in> set segs \<Longrightarrow> s \<noteq> [] \<and> CHR ''/'' \<notin> set s"
  shows "path_normalize (join_with ''/'' segs)
           = (if join_with ''/'' (normalizeArray segs True) = [] then ''.''
              else join_with ''/'' (normalizeArray segs True))"
proof -
  let ?p = "join_with ''/'' segs"
  have first: "hd segs \<noteq> []" and final: "last segs \<noteq> []"
    using assms by (simp_all add: hd_in_set)
  have nonempty: "?p \<noteq> []" using assms(1) first by (rule join_with_nonempty)
  have "hd ?p = hd (hd segs)" using assms(1) first by (rule hd_join_with)
  moreover have "hd (hd segs) \<in> set (hd segs)" using first by simp
  ultimately have "hd ?p \<noteq> CHR ''/''" using assms by (metis hd_in_set)
  then have relative: "index_js ?p 0 \<noteq> Some CHR ''/''"
    using nonempty by (simp add: index_js_def hd_conv_nth)
  have "last ?p = last (last segs)" using assms(1) final by (rule last_join_with)
  moreover have "last (last segs) \<in> set (last segs)" using final by simp
  ultimately have noslash: "last ?p \<noteq> CHR ''/''" using assms by (metis last_in_set)
  have pieces: "split_on CHR ''/'' ?p = segs"
    using assms by (intro split_on_join_with) simp_all
  have kept: "filter (\<lambda>seg. seg \<noteq> []) segs = segs"
    using assms(2) by (simp add: filter_id_conv)
  show ?thesis
    unfolding path_normalize_def Let_def pieces kept
    using relative noslash by simp
qed

lemma path_join_nonempty:
  "a \<noteq> [] \<Longrightarrow> b \<noteq> [] \<Longrightarrow> path_join a b = path_normalize (a @ ''/'' @ b)"
  by (simp add: path_join_def)

lemma path_dirname_plain:
  assumes "\<And>s. s \<in> set (dirs @ [file]) \<Longrightarrow> plain s"
  shows "path_dirname (join_with ''/'' (dirs @ [file]))
           = (if dirs = [] then ''.'' else join_with ''/'' dirs)"
proof (cases "dirs = []")
  case True
  have "plain file" using assms by simp
  then have f: "file \<noteq> []" "CHR ''/'' \<notin> set file" by (simp_all add: plain_def)
  then have hd: "hd file \<noteq> CHR ''/''" by (metis hd_in_set)
  have tail: "\<And>x. x \<in> set (rev (tl file)) \<Longrightarrow> x \<noteq> CHR ''/''"
    using f by (metis list.set_sel(2) set_rev)
  have a: "dropWhile (\<lambda>c. c = CHR ''/'') (rev (tl file)) = rev (tl file)"
    using tail by (intro dropWhile_none) simp
  have b: "dropWhile (\<lambda>c. c \<noteq> CHR ''/'') (rev (tl file)) = []"
    using tail by (simp add: dropWhile_eq_Nil_conv)
  have p: "join_with ''/'' (dirs @ [file]) = file" using True by simp
  show ?thesis using True f hd unfolding p path_dirname_def Let_def a b by simp
next
  case False
  let ?d = "join_with ''/'' dirs"
  have "plain file" using assms by simp
  then have f: "file \<noteq> []" "CHR ''/'' \<notin> set file" by (simp_all add: plain_def)
  have "plain (hd dirs)" using assms False by simp
  then have first: "hd dirs \<noteq> []" "CHR ''/'' \<notin> set (hd dirs)"
    by (simp_all add: plain_def)
  have d: "?d \<noteq> []" using False first(1) by (rule join_with_nonempty)
  have "hd ?d = hd (hd dirs)" using False first(1) by (rule hd_join_with)
  then have hd: "hd ?d \<noteq> CHR ''/''" using first by (metis hd_in_set)
  have p: "join_with ''/'' (dirs @ [file]) = ?d @ ''/'' @ file"
    using False by (simp add: join_with_append)
  have tl: "tl (?d @ ''/'' @ file) = tl ?d @ ''/'' @ file" using d by simp
  have rv: "rev (tl ?d @ ''/'' @ file) = rev file @ CHR ''/'' # rev (tl ?d)" by simp
  have no: "\<And>x. x \<in> set (rev file) \<Longrightarrow> x \<noteq> CHR ''/''" using f by auto
  have a: "dropWhile (\<lambda>c. c = CHR ''/'') (rev file @ CHR ''/'' # rev (tl ?d))
          = rev file @ CHR ''/'' # rev (tl ?d)"
    using f no by (cases "rev file") auto
  have b: "dropWhile (\<lambda>c. c \<noteq> CHR ''/'') (rev file @ CHR ''/'' # rev (tl ?d))
          = CHR ''/'' # rev (tl ?d)"
  proof -
    have "dropWhile (\<lambda>c. c \<noteq> CHR ''/'') (rev file @ CHR ''/'' # rev (tl ?d))
            = dropWhile (\<lambda>c. c \<noteq> CHR ''/'') (CHR ''/'' # rev (tl ?d))"
      using no by (intro dropWhile_append2) simp
    then show ?thesis by simp
  qed
  have n: "Suc (length (rev (tl ?d))) = length ?d" using d by simp
  have "path_dirname (?d @ ''/'' @ file) = take (length ?d) (?d @ ''/'' @ file)"
    using d hd unfolding path_dirname_def Let_def tl rv a b n by simp
  then show ?thesis using False by (simp add: p)
qed

lemma normalizeArray_dots:
  assumes "\<And>s. s \<in> set segs \<Longrightarrow> plain s \<or> s = ''.''"
  shows "normalizeArray segs True = filter (\<lambda>s. s \<noteq> ''.'') segs"
  using foldr_normalizeArray_step_plain [where segs = segs and kept = "[]"] assms
  by (simp add: normalizeArray_def)

lemma filter_plain: "(\<And>s. s \<in> set segs \<Longrightarrow> plain s) \<Longrightarrow> filter (\<lambda>s. s \<noteq> ''.'') segs = segs"
  by (auto simp add: filter_id_conv plain_def)

lemma dot_slash_join: "names \<noteq> [] \<Longrightarrow> ''./'' @ join_with ''/'' names = join_with ''/'' (''.'' # names)"
  by (cases names) simp_all

lemma dotdot_slash_join:
  "names \<noteq> [] \<Longrightarrow> ''../'' @ join_with ''/'' names = join_with ''/'' (''..'' # names)"
  by (cases names) simp_all

lemma path_join_dirname_here:
  assumes "\<And>s. s \<in> set (dirs @ file # names) \<Longrightarrow> plain s" and "names \<noteq> []"
  shows "path_join (path_dirname (join_with ''/'' (dirs @ [file]))) (''./'' @ join_with ''/'' names)
           = join_with ''/'' (dirs @ names)"
proof -
  define ds where "ds = (if dirs = [] then [''.''] else dirs)"
  let ?segs = "ds @ ''.'' # names"
  have pl: "\<And>s. s \<in> set dirs \<Longrightarrow> plain s" "\<And>s. s \<in> set names \<Longrightarrow> plain s" "plain file"
    using assms(1) by simp_all
  have ds: "ds \<noteq> []" "hd ds \<noteq> []"
    using pl(1) by (auto simp add: ds_def plain_def)
  have dn: "path_dirname (join_with ''/'' (dirs @ [file])) = join_with ''/'' ds"
    using pl by (subst path_dirname_plain) (auto simp add: ds_def)
  have req: "''./'' @ join_with ''/'' names = join_with ''/'' (''.'' # names)"
    using assms(2) by (rule dot_slash_join)
  have "join_with ''/'' ds \<noteq> []" using ds by (rule join_with_nonempty)
  moreover have "join_with ''/'' (''.'' # names) \<noteq> []"
    by (rule join_with_nonempty) simp_all
  ultimately have "path_join (join_with ''/'' ds) (join_with ''/'' (''.'' # names))
      = path_normalize (join_with ''/'' ds @ ''/'' @ join_with ''/'' (''.'' # names))"
    by (rule path_join_nonempty)
  also have "\<dots> = path_normalize (join_with ''/'' ?segs)"
    using ds(1) by (simp add: join_with_append)
  finally have joined: "path_join (path_dirname (join_with ''/'' (dirs @ [file])))
        (''./'' @ join_with ''/'' names) = path_normalize (join_with ''/'' ?segs)"
    by (simp only: dn req)
  have each: "\<And>s. s \<in> set ?segs \<Longrightarrow> plain s \<or> s = ''.''"
    using pl by (auto simp add: ds_def split: if_splits)
  then have shape: "\<And>s. s \<in> set ?segs \<Longrightarrow> s \<noteq> [] \<and> CHR ''/'' \<notin> set s"
    by (fastforce simp add: plain_def)
  have "normalizeArray ?segs True = filter (\<lambda>s. s \<noteq> ''.'') ?segs"
    using each by (rule normalizeArray_dots)
  also have "\<dots> = dirs @ names"
    using filter_plain [of dirs] filter_plain [of names] pl by (simp add: ds_def)
  finally have kept: "normalizeArray ?segs True = dirs @ names" .
  have "last (dirs @ names) \<noteq> []" using assms(2) pl(2) [of "last names"] by (simp add: plain_def)
  then have nonempty: "join_with ''/'' (dirs @ names) \<noteq> []"
    using assms(2) by (intro join_with_nonempty_last) simp_all
  have "path_normalize (join_with ''/'' ?segs) = join_with ''/'' (dirs @ names)"
    using nonempty by (subst path_normalize_relative) (use shape in \<open>simp_all add: kept\<close>)
  then show ?thesis by (simp only: joined)
qed

lemma normalizeArray_up:
  assumes "dirs \<noteq> []" and "\<And>s. s \<in> set dirs \<Longrightarrow> plain s" and "\<And>s. s \<in> set names \<Longrightarrow> plain s"
  shows "normalizeArray (dirs @ ''..'' # names) True = butlast dirs @ names"
proof -
  have "foldr normalizeArray_step names ([], 0) = (names, 0)"
    using foldr_normalizeArray_step_plain [where segs = names and kept = "[]"]
          filter_plain [of names] assms(3)
    by simp
  then have "foldr normalizeArray_step (''..'' # names) ([], 0) = (names, Suc 0)"
    by simp
  then have "foldr normalizeArray_step (dirs @ ''..'' # names) ([], 0)
               = foldr normalizeArray_step dirs (names, Suc 0)"
    by (simp only: foldr_append)
  also have "\<dots> = (butlast dirs @ names, 0)"
    using assms(1,2) by (rule foldr_normalizeArray_step_up)
  finally show ?thesis by (simp add: normalizeArray_def)
qed

lemma path_join_dirname_up:
  assumes "\<And>s. s \<in> set (dirs @ file # names) \<Longrightarrow> plain s" and "names \<noteq> []" and "dirs \<noteq> []"
  shows "path_join (path_dirname (join_with ''/'' (dirs @ [file]))) (''../'' @ join_with ''/'' names)
           = join_with ''/'' (butlast dirs @ names)"
proof -
  let ?segs = "dirs @ ''..'' # names"
  have pl: "\<And>s. s \<in> set dirs \<Longrightarrow> plain s" "\<And>s. s \<in> set names \<Longrightarrow> plain s" "plain file"
    using assms(1) by simp_all
  have "plain (hd dirs)" using pl(1) assms(3) by simp
  then have first: "hd dirs \<noteq> []" by (simp add: plain_def)
  have dn: "path_dirname (join_with ''/'' (dirs @ [file])) = join_with ''/'' dirs"
    using pl assms(3) by (subst path_dirname_plain) auto
  have req: "''../'' @ join_with ''/'' names = join_with ''/'' (''..'' # names)"
    using assms(2) by (rule dotdot_slash_join)
  have "join_with ''/'' dirs \<noteq> []" using assms(3) first by (rule join_with_nonempty)
  moreover have "join_with ''/'' (''..'' # names) \<noteq> []"
    by (rule join_with_nonempty) simp_all
  ultimately have "path_join (join_with ''/'' dirs) (join_with ''/'' (''..'' # names))
      = path_normalize (join_with ''/'' dirs @ ''/'' @ join_with ''/'' (''..'' # names))"
    by (rule path_join_nonempty)
  also have "\<dots> = path_normalize (join_with ''/'' ?segs)"
    using assms(3) by (simp add: join_with_append)
  finally have joined: "path_join (path_dirname (join_with ''/'' (dirs @ [file])))
        (''../'' @ join_with ''/'' names) = path_normalize (join_with ''/'' ?segs)"
    by (simp only: dn req)
  have shape: "\<And>s. s \<in> set ?segs \<Longrightarrow> s \<noteq> [] \<and> CHR ''/'' \<notin> set s"
    using pl by (fastforce simp add: plain_def)
  have kept: "normalizeArray ?segs True = butlast dirs @ names"
    using assms(3) pl(1,2) by (rule normalizeArray_up)
  have "last (butlast dirs @ names) \<noteq> []"
    using assms(2) pl(2) [of "last names"] by (simp add: plain_def)
  then have nonempty: "join_with ''/'' (butlast dirs @ names) \<noteq> []"
    using assms(2) by (intro join_with_nonempty_last) simp_all
  have "path_normalize (join_with ''/'' ?segs) = join_with ''/'' (butlast dirs @ names)"
    using nonempty by (subst path_normalize_relative) (use shape in \<open>simp_all add: kept\<close>)
  then show ?thesis by (simp only: joined)
qed

section \<open>Properties of post-process resolution\<close>

text \<open>
  When every resource is listed once, each array is visited once, from its first entry
  to its last, and the pass rewrites every entry by itself.
\<close>

declare postProcess_loop.simps [simp del]

lemma postProcess_loop_strings:
  "postProcess_loop g objects r (done @ map Some todo) (length done)
     = (done @ map (postProcess_entry g objects r) todo, None)"
proof (induction todo arbitrary: "done")
  case Nil
  show ?case by (subst postProcess_loop.simps) simp
next
  case (Cons req todo)
  have "postProcess_loop g objects r (done @ map Some (req # todo)) (length done)
          = postProcess_loop g objects r
              ((done @ [postProcess_entry g objects r req]) @ map Some todo)
              (length (done @ [postProcess_entry g objects r req]))"
    by (subst postProcess_loop.simps) simp
  also have "\<dots> = ((done @ [postProcess_entry g objects r req])
                      @ map (postProcess_entry g objects r) todo, None)"
    by (rule Cons.IH)
  finally show ?case by simp
qed

lemma postProcess_loop_fresh:
  "postProcess_loop g objects r (map Some reqs) 0 = (map (postProcess_entry g objects r) reqs, None)"
  using postProcess_loop_strings [of g objects r "[]" reqs] by simp

lemma postProcess_forEach_distinct:
  assumes "distinct resources"
      and "\<And>a. a \<in> set resources \<Longrightarrow> current a = map Some (reqs a)"
  shows "postProcess_forEach g objects resources current
           = ((\<lambda>a. if a \<in> set resources
                    then map (postProcess_entry g objects (objects a)) (reqs a)
                    else current a), None)"
  using assms
proof (induction resources arbitrary: current)
  case Nil
  show ?case by simp
next
  case (Cons a rest)
  let ?new = "map (postProcess_entry g objects (objects a)) (reqs a)"
  have here: "postProcess_loop g objects (objects a) (current a) 0 = (?new, None)"
    using Cons.prems(2) [of a] by (simp add: postProcess_loop_fresh)
  have fresh: "a \<notin> set rest" and rest: "distinct rest" using Cons.prems(1) by simp_all
  have "postProcess_forEach g objects rest (current(a := ?new))
          = ((\<lambda>b. if b \<in> set rest
                   then map (postProcess_entry g objects (objects b)) (reqs b)
                   else (current(a := ?new)) b), None)"
  proof (rule Cons.IH [OF rest])
    fix b assume "b \<in> set rest"
    then show "(current(a := ?new)) b = map Some (reqs b)"
      using fresh Cons.prems(2) [of b] by auto
  qed
  then show ?case using fresh by (auto simp add: here)
qed

lemma postProcess_distinct:
  assumes "distinct resources"
  shows "postProcess g objects resources cb
           = ((\<lambda>a. if a \<in> set resources
                    then map (postProcess_entry g objects (objects a)) (requiredModules (objects a))
                    else arrays_of objects a),
              NextTurn # cb)"
  unfolding postProcess_def
  by (subst postProcess_forEach_distinct [OF assms, where reqs = "\<lambda>a. requiredModules (objects a)"])
     (simp_all add: arrays_of_def)

text \<open>
  C3. With every resource listed once, the pass raises no error and schedules its
  callback for a later turn; it keeps the length of every \<^verbatim>\<open>requiredModules\<close> array and
  rewrites each entry at its own position. An entry \<open>req\<close> that begins with a dot is
  joined to the directory of its resource's path; if a resource is found at that path
  with \<^verbatim>\<open>.js\<close> appended, or else at that path with \<^verbatim>\<open>/index.js\<close> appended, the entry becomes
  the id of that resource, and if neither is found the entry stays \<open>req\<close>. Every other
  entry stays as it is. The joined path is the one expected: for a resource at
  \<^verbatim>\<open>dirs/file\<close>, an entry \<^verbatim>\<open>./names\<close> is looked up at \<^verbatim>\<open>dirs/names\<close>, and an entry
  \<^verbatim>\<open>../names\<close> at \<^verbatim>\<open>names\<close> under the directory above \<^verbatim>\<open>dirs\<close>. For the build with
  \<^verbatim>\<open>foo/index.js\<close> (id \<^verbatim>\<open>Foo\<close>) and \<^verbatim>\<open>bar.js\<close>, the entry \<^verbatim>\<open>./foo\<close> of \<^verbatim>\<open>bar.js\<close> becomes
  \<^verbatim>\<open>Foo\<close> and an entry \<^verbatim>\<open>./missing\<close> stays.
\<close>

theorem postProcess_resolves_relative:
  assumes "distinct resources" and "a \<in> set resources"
      and "i < length (requiredModules (objects a))"
  shows "snd (postProcess g objects resources cb) = NextTurn # cb
       \<and> length (fst (postProcess g objects resources cb) a)
           = length (requiredModules (objects a))
       \<and> fst (postProcess g objects resources cb) a ! i =
           (let r = objects a;
                req = requiredModules r ! i;
                relative = path_join (path_dirname (path r)) req
            in if index_js req 0 = Some CHR ''.'' then
                 (case g (relative @ ''.js'') of
                    Some found \<Rightarrow> id' (objects found)
                  | None \<Rightarrow>
                      (case g (relative @ ''/index.js'') of
                         Some found \<Rightarrow> id' (objects found)
                       | None \<Rightarrow> Some req))
               else Some req)
       \<and> (\<forall>dirs file names.
            (\<forall>seg \<in> set (dirs @ file # names). plain seg) \<and> names \<noteq> [] \<longrightarrow>
            path_join (path_dirname (join_with ''/'' (dirs @ [file])))
                      (''./'' @ join_with ''/'' names)
              = join_with ''/'' (dirs @ names))
       \<and> (\<forall>dirs file names.
            (\<forall>seg \<in> set (dirs @ file # names). plain seg) \<and> names \<noteq> [] \<and> dirs \<noteq> [] \<longrightarrow>
            path_join (path_dirname (join_with ''/'' (dirs @ [file])))
                      (''../'' @ join_with ''/'' names)
              = join_with ''/'' (butlast dirs @ names))"
proof -
  have pass: "postProcess g objects resources cb
      = ((\<lambda>a. if a \<in> set resources
               then map (postProcess_entry g objects (objects a)) (requiredModules (objects a))
               else arrays_of objects a),
         NextTurn # cb)"
    using assms(1) by (rule postProcess_distinct)
  have "snd (postProcess g objects resources cb) = NextTurn # cb"
    by (simp add: pass)
  moreover have "length (fst (postProcess g objects resources cb) a)
                   = length (requiredModules (objects a))"
    using assms(2) by (simp add: pass)
  moreover have "fst (postProcess g objects resources cb) a ! i =
           (let r = objects a;
                req = requiredModules r ! i;
                relative = path_join (path_dirname (path r)) req
            in if index_js req 0 = Some CHR ''.'' then
                 (case g (relative @ ''.js'') of
                    Some found \<Rightarrow> id' (objects found)
                  | None \<Rightarrow>
                      (case g (relative @ ''/index.js'') of
                         Some found \<Rightarrow> id' (objects found)
                       | None \<Rightarrow> Some req))
               else Some req)"
    using assms(2,3) by (simp add: pass postProcess_entry_def Let_def split: option.splits)
  moreover have "\<forall>dirs file names.
            (\<forall>seg \<in> set (dirs @ file # names). plain seg) \<and> names \<noteq> [] \<longrightarrow>
            path_join (path_dirname (join_with ''/'' (dirs @ [file])))
                      (''./'' @ join_with ''/'' names)
              = join_with ''/'' (dirs @ names)"
    using path_join_dirname_here by blast
  moreover have "\<forall>dirs file names.
            (\<forall>seg \<in> set (dirs @ file # names). plain seg) \<and> names \<noteq> [] \<and> dirs \<noteq> [] \<longrightarrow>
            path_join (path_dirname (join_with ''/'' (dirs @ [file])))
                      (''../'' @ join_with ''/'' names)
              = join_with ''/'' (butlast dirs @ names)"
    using path_join_dirname_up by blast
  ultimately show ?thesis by (intro conjI)
qed

lemmas eval_paths = path_join_def path_dirname_def path_normalize_def normalizeArray_def
  split_on_def index_js_def Let_def

lemma example_relative:
  "path_join (path_dirname ''bar.js'') ''./foo'' = ''foo''"
  "path_join (path_dirname ''bar.js'') ''./missing'' = ''missing''"
  "path_join (path_dirname ''lib/ui/menu.js'') ''./item'' = ''lib/ui/item''"
  "path_join (path_dirname ''lib/ui/menu.js'') ''../util/dom'' = ''lib/util/dom''"
  "path_join (path_dirname ''lib/ui/menu.js'') ''./missing'' = ''lib/ui/missing''"
  by (simp_all add: eval_paths)

theorem postProcess_resolves_relative_witness:
  "distinct [0, 1, 3 :: nat]
   \<and> (1 :: nat) \<in> set [0, 1, 3]
   \<and> 0 < length (requiredModules (example_heap [''./foo''] (Some ''Foo'') 1))
   \<and> fst (postProcess example_build (example_heap [''./foo''] (Some ''Foo'')) [0, 1, 3] []) 1 ! 0
       = Some ''Foo''
   \<and> fst (postProcess example_build (example_heap [''./missing''] (Some ''Foo'')) [0, 1, 3] []) 1 ! 0
       = Some ''./missing''
   \<and> snd (postProcess example_build (example_heap [''./foo''] (Some ''Foo'')) [0, 1, 3] [])
       = [NextTurn]
   \<and> (3 :: nat) \<in> set [0, 1, 3]
   \<and> 3 < length (requiredModules (example_heap [''./foo''] (Some ''Foo'') 3))
   \<and> fst (postProcess example_build (example_heap [''./foo''] (Some ''Foo'')) [0, 1, 3] []) 3 ! 0
       = Some ''Item''
   \<and> fst (postProcess example_build (example_heap [''./foo''] (Some ''Foo'')) [0, 1, 3] []) 3 ! 1
       = Some ''Dom''
   \<and> fst (postProcess example_build (example_heap [''./foo''] (Some ''Foo'')) [0, 1, 3] []) 3 ! 2
       = Some ''./missing''
   \<and> fst (postProcess example_build (example_heap [''./foo''] (Some ''Foo'')) [0, 1, 3] []) 3 ! 3
       = Some ''fs''
   \<and> plain ''lib'' \<and> plain ''ui'' \<and> plain ''menu.js'' \<and> plain ''item'' \<and> plain ''util''
   \<and> plain ''dom''
   \<and> path_join (path_dirname (join_with ''/'' ([''lib'', ''ui''] @ [''menu.js''])))
                 (''./'' @ join_with ''/'' [''item''])
       = join_with ''/'' ([''lib'', ''ui''] @ [''item''])
   \<and> path_join (path_dirname (join_with ''/'' ([''lib'', ''ui''] @ [''menu.js''])))
                 (''../'' @ join_with ''/'' [''util'', ''dom''])
       = join_with ''/'' (butlast [''lib'', ''ui''] @ [''util'', ''dom''])"
proof -
  let ?foo = "example_heap [''./foo''] (Some ''Foo'')"
  let ?missing = "example_heap [''./missing''] (Some ''Foo'')"
  have d: "distinct [0, 1, 3 :: nat]" by simp
  have m1: "(1 :: nat) \<in> set [0, 1, 3]" and m3: "(3 :: nat) \<in> set [0, 1, 3]" by simp_all
  have l1: "0 < length (requiredModules (example_heap [req] (Some ''Foo'') 1))" for req
    by (simp add: example_heap_def)
  have l3: "k < 4 \<Longrightarrow> k < length (requiredModules (?foo 3))" for k
    by (simp add: example_heap_def)
  have pl: "plain ''lib''" "plain ''ui''" "plain ''menu.js''" "plain ''item''" "plain ''util''"
    "plain ''dom''"
    by (simp_all add: plain_def)
  note bar_foo = postProcess_resolves_relative
    [where resources = "[0, 1, 3]" and a = 1 and i = 0 and objects = ?foo
       and g = example_build and cb = "[]", OF d m1 l1]
  note bar_missing = postProcess_resolves_relative
    [where resources = "[0, 1, 3]" and a = 1 and i = 0 and objects = ?missing
       and g = example_build and cb = "[]", OF d m1 l1]
  note menu = postProcess_resolves_relative
    [where resources = "[0, 1, 3]" and a = 3 and objects = ?foo
       and g = example_build and cb = "[]", OF d m3 l3]
  have e1: "fst (postProcess example_build ?foo [0, 1, 3] []) 1 ! 0 = Some ''Foo''"
    using bar_foo
    by (simp add: example_heap_def example_build_def JS_new_def example_relative index_js_def)
  have e2: "fst (postProcess example_build ?missing [0, 1, 3] []) 1 ! 0 = Some ''./missing''"
    using bar_missing
    by (simp add: example_heap_def example_build_def JS_new_def example_relative index_js_def)
  have e3: "snd (postProcess example_build ?foo [0, 1, 3] []) = [NextTurn]"
    using bar_foo by simp
  have e4: "fst (postProcess example_build ?foo [0, 1, 3] []) 3 ! 0 = Some ''Item''"
    using menu [of 0]
    by (simp add: example_heap_def example_build_def JS_new_def example_relative index_js_def)
  have e5: "fst (postProcess example_build ?foo [0, 1, 3] []) 3 ! 1 = Some ''Dom''"
    using menu [of 1]
    by (simp add: example_heap_def example_build_def JS_new_def example_relative index_js_def)
  have e6: "fst (postProcess example_build ?foo [0, 1, 3] []) 3 ! 2 = Some ''./missing''"
    using menu [of 2]
    by (simp add: example_heap_def example_build_def JS_new_def example_relative index_js_def)
  have e7: "fst (postProcess example_build ?foo [0, 1, 3] []) 3 ! 3 = Some ''fs''"
    using menu [of 3]
    by (simp add: example_heap_def example_build_def JS_new_def example_relative index_js_def)
  have here: "\<forall>dirs file names.
            (\<forall>seg \<in> set (dirs @ file # names). plain seg) \<and> names \<noteq> [] \<longrightarrow>
            path_join (path_dirname (join_with ''/'' (dirs @ [file])))
                      (''./'' @ join_with ''/'' names)
              = join_with ''/'' (dirs @ names)"
    using bar_foo by blast
  have up: "\<forall>dirs file names.
            (\<forall>seg \<in> set (dirs @ file # names). plain seg) \<and> names \<noteq> [] \<and> dirs \<noteq> [] \<longrightarrow>
            path_join (path_dirname (join_with ''/'' (dirs @ [file])))
                      (''../'' @ join_with ''/'' names)
              = join_with ''/'' (butlast dirs @ names)"
    using bar_foo by blast
  have e8: "path_join (path_dirname (join_with ''/'' ([''lib'', ''ui''] @ [''menu.js''])))
                 (''./'' @ join_with ''/'' [''item''])
       = join_with ''/'' ([''lib'', ''ui''] @ [''item''])"
    using here [rule_format, of "[''lib'', ''ui'']" "''menu.js''" "[''item'']"] pl by simp
  have e9: "path_join (path_dirname (join_with ''/'' ([''lib'', ''ui''] @ [''menu.js''])))
                 (''../'' @ join_with ''/'' [''util'', ''dom''])
       = join_with ''/'' (butlast [''lib'', ''ui''] @ [''util'', ''dom''])"
    using up [rule_format, of "[''lib'', ''ui'']" "''menu.js''" "[''util'', ''dom'']"] pl by simp
  have l3': "3 < length (requiredModules (?foo 3))" by (rule l3) simp
  show ?thesis
    using d m1 m3 l1 [of "''./foo''"] l3' e1 e2 e3 e4 e5 e6 e7 e8 e9 pl
    by (intro conjI)
qed


text \<open>
  The rewriting is in place. A resource that is listed twice has its array visited
  twice: an entry that the first visit replaced by an id beginning with a dot is
  resolved again by the second, and an entry that the first visit replaced by the
  absent id of the resource found makes the second visit throw.
\<close>

lemma postProcess_listed_twice:
  "fst (postProcess example_build (example_heap [''./foo''] (Some ''./baz'')) [1] []) 1
     = [Some ''./baz'']"
  "fst (postProcess example_build (example_heap [''./foo''] (Some ''./baz'')) [1, 1] []) 1
     = [Some ''Baz'']"
  "postProcess example_build (example_heap [''./foo''] None) [1, 1] [] 
     = ((arrays_of (example_heap [''./foo''] None))(1 := [None]), [Uncaught TypeError])"
  by (simp_all add: postProcess_def arrays_of_def postProcess_loop.simps postProcess_entry_def
        example_heap_def example_build_def JS_new_def eval_paths)

end
